theory Spec2Isabelle
  imports Main "HOL-Library.Sublist"
begin

section \<open>kroctl: the push and inspect workflows\<close>

text \<open>
  A shallow embedding of \<^verbatim>\<open>internal/command/push.go\<close> (\<^verbatim>\<open>RunPush\<close>),
  \<^verbatim>\<open>internal/oci/oci.go\<close> (\<^verbatim>\<open>SetupRepository\<close>) and the inspect command
  (\<^verbatim>\<open>RunInspect\<close>). Everything the commands obtain from the operating system, from the
  oras client library or from the registry is a field of a \<open>world\<close> record; the commands
  return their error together with the chronological list of the effects they performed.
\<close>

subsection \<open>Errors\<close>

text \<open>
  \<^verbatim>\<open>fmt.Errorf\<close> without \<^verbatim>\<open>%w\<close> is \<open>ErrNew\<close>; with \<^verbatim>\<open>%w\<close> it is \<open>ErrWrap\<close> of the text
  in front of the wrapped error. \<open>ErrExternal\<close> is an error produced outside this repository.
\<close>

datatype error = ErrExternal string | ErrNew string | ErrWrap string error | ErrPanic string

fun error_text :: "error \<Rightarrow> string" where
  "error_text (ErrExternal s) = s"
| "error_text (ErrNew s) = s"
| "error_text (ErrWrap p e) = p @ error_text e"
| "error_text (ErrPanic s) = s"

subsection \<open>Paths (Go's \<^verbatim>\<open>path/filepath\<close> on a slash-separated system)\<close>

text \<open>
  \<^verbatim>\<open>filepath.Ext\<close>: scan from the end of the path up to the last separator; the extension
  starts at the first dot met. The scan runs on the reversed path, \<open>suf\<close> is what was passed.
\<close>

fun Ext_scan :: "string \<Rightarrow> string \<Rightarrow> string" where
  "Ext_scan [] suf = []"
| "Ext_scan (c # cs) suf =
     (if c = CHR ''/'' then []
      else if c = CHR ''.'' then c # suf
      else Ext_scan cs (c # suf))"

definition Ext :: "string \<Rightarrow> string" where
  "Ext path = Ext_scan (rev path) []"

text \<open>\<^verbatim>\<open>filepath.Base\<close>: the last element of the path, trailing separators removed.\<close>

definition Base :: "string \<Rightarrow> string" where
  "Base path =
     (if path = [] then ''.''
      else let p = rev (dropWhile (\<lambda>c. c = CHR ''/'') (rev path))
           in if p = [] then ''/''
              else rev (takeWhile (\<lambda>c. c \<noteq> CHR ''/'') (rev p)))"

subsection \<open>The file system as \<^verbatim>\<open>os.Stat\<close> and \<^verbatim>\<open>filepath.Walk\<close> see it\<close>

record file_info =
  IsDir :: bool

text \<open>
  What \<^verbatim>\<open>filepath.Walk\<close> finds at a path: \<open>LstatFails\<close> when \<^verbatim>\<open>os.Lstat\<close> fails there,
  a non-directory, a directory whose names cannot be read, or a directory with its entries
  in the (lexical) order in which \<^verbatim>\<open>Walk\<close> reads them.
\<close>

datatype fsnode =
    LstatFails error
  | File
  | DirUnreadable error
  | Dir "(string \<times> fsnode) list"

text \<open>
  \<^verbatim>\<open>filepath.Walk\<close> with a callback that threads a state \<open>'s\<close> and returns its error
  (\<open>None\<close> is \<^verbatim>\<open>nil\<close>). The callback gets the path, the file info (\<^verbatim>\<open>nil\<close> when
  \<^verbatim>\<open>Lstat\<close> failed) and the error met at that path. The walk stops at the first error the
  callback returns. The sentinels \<^verbatim>\<open>SkipDir\<close> and \<^verbatim>\<open>SkipAll\<close> are left out: \<^verbatim>\<open>Walk\<close>
  never passes them to the callback and the callback of \<^verbatim>\<open>RunPush\<close> returns only what it is
  passed. \<open>join\<close> is \<^verbatim>\<open>filepath.Join\<close>.
\<close>

type_synonym 's walkFn = "string \<Rightarrow> file_info option \<Rightarrow> error option \<Rightarrow> 's \<Rightarrow> error option \<times> 's"

fun walk :: "(string \<Rightarrow> string \<Rightarrow> string) \<Rightarrow> 's walkFn \<Rightarrow> string \<Rightarrow> fsnode \<Rightarrow> 's \<Rightarrow> error option \<times> 's"
and walk_names :: "(string \<Rightarrow> string \<Rightarrow> string) \<Rightarrow> 's walkFn \<Rightarrow> string \<Rightarrow> (string \<times> fsnode) list \<Rightarrow> 's \<Rightarrow> error option \<times> 's"
where
  "walk join fn path (LstatFails err) s = fn path None (Some err) s"
| "walk join fn path File s = fn path (Some \<lparr>IsDir = False\<rparr>) None s"
| "walk join fn path (DirUnreadable err) s = fn path (Some \<lparr>IsDir = True\<rparr>) (Some err) s"
| "walk join fn path (Dir entries) s =
     (case fn path (Some \<lparr>IsDir = True\<rparr>) None s of
        (Some err1, s') \<Rightarrow> (Some err1, s')
      | (None, s') \<Rightarrow> walk_names join fn path entries s')"
| "walk_names join fn path [] s = (None, s)"
| "walk_names join fn path ((name, node) # rest) s =
     (case walk join fn (join path name) node s of
        (Some err, s') \<Rightarrow> (Some err, s')
      | (None, s') \<Rightarrow> walk_names join fn path rest s')"

subsection \<open>\<^verbatim>\<open>RunPush\<close>: collecting the files\<close>

text \<open>The callback given to \<^verbatim>\<open>filepath.Walk\<close> (push.go, lines 63 to 72); its state is \<^verbatim>\<open>allFiles\<close>.\<close>

definition push_walkFn :: "string list walkFn" where
  "push_walkFn path info err allFiles =
     (case err of
        Some e \<Rightarrow> (Some e, allFiles)
      | None \<Rightarrow>
          (let ext = Ext path
           in case info of
                None \<Rightarrow> (Some (ErrPanic ''nil pointer dereference''), allFiles)
              | Some i \<Rightarrow>
                  if \<not> IsDir i \<and> (ext = ''.yaml'' \<or> ext = ''.yml'')
                  then (None, allFiles @ [path])
                  else (None, allFiles)))"

text \<open>
  What the operating system answers during collection: \<^verbatim>\<open>os.Stat\<close> of a path, what
  \<^verbatim>\<open>filepath.Walk\<close> finds when it is rooted at a path, and \<^verbatim>\<open>filepath.Join\<close>.
\<close>

record os_world =
  os_Stat :: "string \<Rightarrow> error + file_info"
  walk_root :: "string \<Rightarrow> fsnode"
  filepath_Join :: "string \<Rightarrow> string \<Rightarrow> string"

definition filepath_Walk :: "os_world \<Rightarrow> string \<Rightarrow> 's walkFn \<Rightarrow> 's \<Rightarrow> error option \<times> 's" where
  "filepath_Walk w root fn s = walk (filepath_Join w) fn root (walk_root w root) s"

text \<open>The loop over \<^verbatim>\<open>opts.Filenames\<close> (push.go, lines 55 to 79).\<close>

fun RunPush_collect :: "os_world \<Rightarrow> string list \<Rightarrow> string list \<Rightarrow> error + string list" where
  "RunPush_collect w [] allFiles = Inr allFiles"
| "RunPush_collect w (filename # rest) allFiles =
     (case os_Stat w filename of
        Inl err \<Rightarrow> Inl (ErrWrap (''failed to access '' @ filename @ '': '') err)
      | Inr info \<Rightarrow>
          if IsDir info then
            (case filepath_Walk w filename push_walkFn allFiles of
               (Some err, allFiles') \<Rightarrow>
                 Inl (ErrWrap (''failed to walk directory '' @ filename @ '': '') err)
             | (None, allFiles') \<Rightarrow> RunPush_collect w rest allFiles')
          else RunPush_collect w rest (allFiles @ [filename]))"

subsection \<open>Descriptors, references and repositories (oras and image-spec types)\<close>

record descriptor =
  MediaType :: string
  Digest :: string
  Size :: int
  Annotations :: "(string \<rightharpoonup> string) option"

record manifest =
  Config :: descriptor
  Layers :: "descriptor list"

definition AnnotationCreated :: string where
  "AnnotationCreated = ''org.opencontainers.image.created''"

definition AnnotationTitle :: string where
  "AnnotationTitle = ''org.opencontainers.image.title''"

text \<open>
  \<^verbatim>\<open>registry.Reference\<close>: its field \<^verbatim>\<open>Reference\<close> (the tag or digest) is \<open>ref_Reference\<close> here,
  and the field \<^verbatim>\<open>Reference\<close> of \<^verbatim>\<open>remote.Repository\<close> is \<open>repo_Reference\<close>.
\<close>

record registry_Reference =
  Registry :: string
  Repository :: string
  ref_Reference :: string

text \<open>\<^verbatim>\<open>Reference.Host\<close> of oras: the registry, with Docker Hub's name replaced by its host.\<close>

definition Host :: "registry_Reference \<Rightarrow> string" where
  "Host r = (if Registry r = ''docker.io'' then ''registry-1.docker.io'' else Registry r)"

datatype credential_store = DockerCredentials string

record auth_Client =
  Credential :: credential_store

record remote_Repository =
  repo_Reference :: registry_Reference
  PlainHTTP :: bool
  Client :: "auth_Client option"

subsection \<open>\<^verbatim>\<open>SetupRepository\<close> (internal/oci/oci.go)\<close>

definition ArtifactType :: string where
  "ArtifactType = ''application/vnd.kro.rgd.stack.v1''"

definition LayerMediaType :: string where
  "LayerMediaType = ''application/vnd.kro.rgd.content.v1.yaml''"

text \<open>
  What oras answers to \<^verbatim>\<open>SetupRepository\<close>: the parse of the reference string
  (\<^verbatim>\<open>registry.ParseReference\<close>) and the Docker credential store.
\<close>

record oci_world =
  registry_ParseReference :: "string \<Rightarrow> error + registry_Reference"
  credentials_NewStoreFromDocker :: "error + credential_store"

text \<open>
  \<^verbatim>\<open>remote.NewRepository\<close> of oras: parse the reference and return a repository holding it,
  every other field at its zero value.
\<close>

definition remote_NewRepository :: "oci_world \<Rightarrow> string \<Rightarrow> error + remote_Repository" where
  "remote_NewRepository w reference =
     (case registry_ParseReference w reference of
        Inl err \<Rightarrow> Inl err
      | Inr ref \<Rightarrow> Inr \<lparr>repo_Reference = ref, PlainHTTP = False, Client = None\<rparr>)"

definition SetupRepository :: "oci_world \<Rightarrow> string \<Rightarrow> error + remote_Repository" where
  "SetupRepository w reference =
     (case remote_NewRepository w reference of
        Inl err \<Rightarrow> Inl (ErrWrap (''invalid reference '' @ reference @ '': '') err)
      | Inr repo \<Rightarrow>
          (let host = Host (repo_Reference repo);
               repo1 = (if prefix ''localhost:'' host \<or>
                           prefix ''127.0.0.1:'' host \<or>
                           prefix ''::1:'' host
                        then repo\<lparr>PlainHTTP := True\<rparr> else repo)
           in case credentials_NewStoreFromDocker w of
                Inl err \<Rightarrow> Inl (ErrWrap ''failed to create credential store: '' err)
              | Inr credStore \<Rightarrow> Inr (repo1\<lparr>Client := Some \<lparr>Credential = credStore\<rparr>\<rparr>)))"

subsection \<open>Effects\<close>

text \<open>
  The calls a command makes outside itself, each recorded with the error it returned
  (\<open>None\<close> for success), the log records and what is printed. \<open>Print\<close> is \<^verbatim>\<open>cli.Printf\<close>
  with its format expanded; \<open>TabWrite\<close> is a \<^verbatim>\<open>fmt.Fprintf\<close> into the \<^verbatim>\<open>tabwriter\<close> and
  \<open>TabFlush\<close> its \<^verbatim>\<open>Flush\<close>. Log records keep the message and leave the attributes out.
\<close>

datatype call =
    CallFileNew
  | CallStoreAdd string string string
  | CallPackManifest string "descriptor list"
  | CallStoreTag descriptor string
  | CallStoreClose
  | CallSetupRepository string
  | CallCopy string string
  | CallFetchReference string
  | CallReadAll
  | CallRcClose
  | CallUnmarshal

datatype level = Info | Debug

datatype event =
    Call call "error option"
  | Log level string
  | Print string
  | TabWrite string
  | TabFlush

definition nl :: string where
  "nl = [CHR 0x0A]"

definition tab :: string where
  "tab = [CHR 0x09]"

text \<open>The verb \<^verbatim>\<open>%d\<close> of \<^verbatim>\<open>fmt\<close> on a length: its decimal digits.\<close>

fun fmt_d :: "nat \<Rightarrow> string" where
  "fmt_d n =
     (if n < 10 then [char_of (48 + n)]
      else fmt_d (n div 10) @ [char_of (48 + n mod 10)])"

subsection \<open>\<^verbatim>\<open>RunPush\<close>: staging, packing and pushing\<close>

record PushOptions =
  Filenames :: "string list"
  Reference :: string

text \<open>
  What \<^verbatim>\<open>RunPush\<close> calls: the operating system, oras' reference parser and credential store,
  and the file store with its state \<open>'st\<close> passed along (\<^verbatim>\<open>file.New\<close>, \<^verbatim>\<open>store.Add\<close>,
  \<^verbatim>\<open>oras.PackManifest\<close>, \<^verbatim>\<open>store.Tag\<close>, \<^verbatim>\<open>oras.Copy\<close>).
\<close>

record 'st push_world =
  push_os :: os_world
  push_oci :: oci_world
  file_New :: "error + 'st"
  store_Add :: "'st \<Rightarrow> string \<Rightarrow> string \<Rightarrow> string \<Rightarrow> error + descriptor \<times> 'st"
  oras_PackManifest :: "'st \<Rightarrow> string \<Rightarrow> descriptor list \<Rightarrow> error + descriptor \<times> 'st"
  store_Tag :: "'st \<Rightarrow> descriptor \<Rightarrow> string \<Rightarrow> error + 'st"
  oras_Copy :: "'st \<Rightarrow> string \<Rightarrow> remote_Repository \<Rightarrow> string \<Rightarrow> error + descriptor"

text \<open>The loop that adds the files to the store (push.go, lines 97 to 107).\<close>

fun RunPush_stage ::
  "'st push_world \<Rightarrow> 'st \<Rightarrow> string list \<Rightarrow> descriptor list \<Rightarrow> (error + descriptor list \<times> 'st) \<times> event list"
where
  "RunPush_stage w store [] layers = (Inr (layers, store), [])"
| "RunPush_stage w store (file # rest) layers =
     (case store_Add w store (Base file) LayerMediaType file of
        Inl err \<Rightarrow>
          (Inl (ErrWrap (''failed to add '' @ file @ '' to store: '') err),
           [Call (CallStoreAdd (Base file) LayerMediaType file) (Some err)])
      | Inr (desc, store') \<Rightarrow>
          (case RunPush_stage w store' rest (layers @ [desc]) of
             (r, tr) \<Rightarrow>
               (r, [Call (CallStoreAdd (Base file) LayerMediaType file) None,
                    Log Debug ''Added file to artifact''] @ tr)))"

text \<open>Packing, tagging and pushing (push.go, lines 109 to 142).\<close>

definition RunPush_publish ::
  "'st push_world \<Rightarrow> PushOptions \<Rightarrow> string list \<Rightarrow> descriptor list \<Rightarrow> 'st \<Rightarrow> error option \<times> event list"
where
  "RunPush_publish w opts allFiles layers store =
     (case oras_PackManifest w store ArtifactType layers of
        Inl err \<Rightarrow>
          (Some (ErrWrap ''failed to pack manifest: '' err),
           [Call (CallPackManifest ArtifactType layers) (Some err)])
      | Inr (manifestDesc, store1) \<Rightarrow>
          (let tr1 = [Call (CallPackManifest ArtifactType layers) None]
           in case store_Tag w store1 manifestDesc (Reference opts) of
                Inl err \<Rightarrow>
                  (Some (ErrWrap ''failed to tag manifest: '' err),
                   tr1 @ [Call (CallStoreTag manifestDesc (Reference opts)) (Some err)])
              | Inr store2 \<Rightarrow>
                  (let tr2 = tr1 @ [Call (CallStoreTag manifestDesc (Reference opts)) None]
                   in case SetupRepository (push_oci w) (Reference opts) of
                        Inl err \<Rightarrow>
                          (Some err, tr2 @ [Call (CallSetupRepository (Reference opts)) (Some err)])
                      | Inr repo \<Rightarrow>
                          (let tr3 = tr2 @ [Call (CallSetupRepository (Reference opts)) None]
                                 @ (if PlainHTTP repo
                                    then [Log Debug ''Using plain HTTP for local registry'']
                                    else [])
                                 @ [Log Info ''Pushing artifact to registry'']
                           in case oras_Copy w store2 (Reference opts) repo (Reference opts) of
                                Inl err \<Rightarrow>
                                  (Some (ErrWrap ''failed to push artifact: '' err),
                                   tr3 @ [Call (CallCopy (Reference opts) (Reference opts)) (Some err)])
                              | Inr _ \<Rightarrow>
                                  (None,
                                   tr3 @ [Call (CallCopy (Reference opts) (Reference opts)) None,
                                          Print (''Successfully pushed '' @ fmt_d (length allFiles)
                                                 @ '' RGD file(s) to '' @ Reference opts @ nl),
                                          Print (''Digest: '' @ Digest manifestDesc @ nl)])))))"

text \<open>
  \<^verbatim>\<open>RunPush\<close>. From the creation of the store on, every return runs the deferred
  \<^verbatim>\<open>store.Close\<close>, whose error is dropped.
\<close>

definition RunPush :: "'st push_world \<Rightarrow> PushOptions \<Rightarrow> error option \<times> event list" where
  "RunPush w opts =
     (if length (Filenames opts) = 0
      then (Some (ErrNew ''no files specified, use -f to provide RGD files''), [])
      else case RunPush_collect (push_os w) (Filenames opts) [] of
             Inl err \<Rightarrow> (Some err, [])
           | Inr allFiles \<Rightarrow>
               if length allFiles = 0
               then (Some (ErrNew ''no YAML files found in specified paths''), [])
               else
                 (let tr0 = [Log Info ''Preparing to push RGD stack'']
                  in case file_New w of
                       Inl err \<Rightarrow>
                         (Some (ErrWrap ''failed to create file store: '' err),
                          tr0 @ [Call CallFileNew (Some err)])
                     | Inr store \<Rightarrow>
                         (case RunPush_stage w store allFiles [] of
                            (Inl err, tr1) \<Rightarrow>
                              (Some err, tr0 @ [Call CallFileNew None] @ tr1 @ [Call CallStoreClose None])
                          | (Inr (layers, store1), tr1) \<Rightarrow>
                              (case RunPush_publish w opts allFiles layers store1 of
                                 (res, tr2) \<Rightarrow>
                                   (res, tr0 @ [Call CallFileNew None] @ tr1 @ tr2
                                         @ [Call CallStoreClose None])))))"

subsection \<open>\<^verbatim>\<open>RunInspect\<close>\<close>

record InspectOptions =
  inspect_Reference :: string

text \<open>
  The reader returned by \<^verbatim>\<open>FetchReference\<close> is what \<^verbatim>\<open>io.ReadAll\<close> will get from it.
  \<open>'t\<close> is \<^verbatim>\<open>time.Time\<close>; \<open>time_Parse\<close> and \<open>time_Format\<close> are \<^verbatim>\<open>time.Parse\<close> and
  \<^verbatim>\<open>Time.Format\<close> with the layout \<^verbatim>\<open>time.RFC3339\<close>.
\<close>

datatype reader = Reader "error + string"

fun io_ReadAll :: "reader \<Rightarrow> error + string" where
  "io_ReadAll (Reader r) = r"

record 't inspect_world =
  inspect_oci :: oci_world
  repo_FetchReference :: "remote_Repository \<Rightarrow> string \<Rightarrow> error + descriptor \<times> reader"
  json_Unmarshal :: "string \<Rightarrow> error + manifest"
  time_Parse :: "string \<Rightarrow> error + 't"
  time_Format :: "'t \<Rightarrow> string"

text \<open>The optional line of the creation time (lines 113 to 120 of the inspect command).\<close>

definition RunInspect_created :: "'t inspect_world \<Rightarrow> manifest \<Rightarrow> event list" where
  "RunInspect_created w m =
     (case Annotations (Config m) of
        None \<Rightarrow> []
      | Some annotations \<Rightarrow>
          (case annotations AnnotationCreated of
             None \<Rightarrow> []
           | Some created \<Rightarrow>
               (case time_Parse w created of
                  Inl err \<Rightarrow> []
                | Inr t \<Rightarrow> [Print (''Created:   '' @ time_Format w t @ nl)])))"

text \<open>The loop over the layers (lines 132 to 141): one row for each layer.\<close>

fun RunInspect_rows :: "descriptor list \<Rightarrow> event list" where
  "RunInspect_rows [] = []"
| "RunInspect_rows (layer # rest) =
     (let name = (case Annotations layer of
                    None \<Rightarrow> ''unknown''
                  | Some annotations \<Rightarrow>
                      (case annotations AnnotationTitle of
                         None \<Rightarrow> ''unknown''
                       | Some title \<Rightarrow> title))
      in TabWrite (name @ tab @ Digest layer @ nl) # RunInspect_rows rest)"

text \<open>What is printed once the manifest is parsed (lines 103 to 145).\<close>

definition RunInspect_report ::
  "'t inspect_world \<Rightarrow> remote_Repository \<Rightarrow> descriptor \<Rightarrow> manifest \<Rightarrow> error option \<times> event list"
where
  "RunInspect_report w repo manifestDesc m =
     (let artifactName =
            (if ref_Reference (repo_Reference repo) \<noteq> []
             then Repository (repo_Reference repo) @ '':'' @ ref_Reference (repo_Reference repo)
             else Repository (repo_Reference repo));
          registry = Host (repo_Reference repo);
          tr = [Print (''Artifact:  '' @ artifactName @ nl),
                Print (''Registry:  '' @ registry @ nl),
                Print (''Digest:    '' @ Digest manifestDesc @ nl)]
               @ RunInspect_created w m
      in if length (Layers m) = 0
         then (None, tr @ [Print (nl @ ''No ResourceGraphDefinitions found in artifact'' @ nl)])
         else (None, tr @ [Print (nl @ ''ResourceGraphDefinitions:'' @ nl),
                           TabWrite (''Name'' @ tab @ ''Digest'' @ nl)]
                        @ RunInspect_rows (Layers m) @ [TabFlush]))"

text \<open>
  \<^verbatim>\<open>RunInspect\<close>. Once the manifest is fetched, every return runs the deferred
  \<^verbatim>\<open>rc.Close\<close>, whose error is dropped.
\<close>

definition RunInspect :: "'t inspect_world \<Rightarrow> InspectOptions \<Rightarrow> error option \<times> event list" where
  "RunInspect w opts =
     (let reference = inspect_Reference opts;
          tr0 = [Log Info ''Inspecting artifact'']
      in case SetupRepository (inspect_oci w) reference of
           Inl err \<Rightarrow> (Some err, tr0 @ [Call (CallSetupRepository reference) (Some err)])
         | Inr repo \<Rightarrow>
             (let tr1 = tr0 @ [Call (CallSetupRepository reference) None]
                    @ (if PlainHTTP repo
                       then [Log Debug ''Using plain HTTP for local registry'']
                       else [])
              in case repo_FetchReference w repo reference of
                   Inl err \<Rightarrow>
                     (Some (ErrWrap ''failed to fetch manifest: '' err),
                      tr1 @ [Call (CallFetchReference reference) (Some err)])
                 | Inr (manifestDesc, rc) \<Rightarrow>
                     (let tr2 = tr1 @ [Call (CallFetchReference reference) None,
                                       Log Debug ''Fetched manifest'']
                      in case io_ReadAll rc of
                           Inl err \<Rightarrow>
                             (Some (ErrWrap ''failed to read manifest: '' err),
                              tr2 @ [Call CallReadAll (Some err), Call CallRcClose None])
                         | Inr manifestBytes \<Rightarrow>
                             (case json_Unmarshal w manifestBytes of
                                Inl err \<Rightarrow>
                                  (Some (ErrWrap ''failed to parse manifest: '' err),
                                   tr2 @ [Call CallReadAll None, Call CallUnmarshal (Some err),
                                          Call CallRcClose None])
                              | Inr m \<Rightarrow>
                                  (case RunInspect_report w repo manifestDesc m of
                                     (res, tr3) \<Rightarrow>
                                       (res, tr2 @ [Call CallReadAll None, Call CallUnmarshal None]
                                             @ tr3 @ [Call CallRcClose None]))))))"

subsection \<open>Notions used to state the properties\<close>

text \<open>A path has one of the two YAML extensions, as the callback tests it.\<close>

definition yaml_ext :: "string \<Rightarrow> bool" where
  "yaml_ext path \<longleftrightarrow> Ext path = ''.yaml'' \<or> Ext path = ''.yml''"

text \<open>
  A tree is readable when \<^verbatim>\<open>Walk\<close> meets no error in it. \<open>files_in\<close> lists the paths of the
  non-directories of a tree rooted at \<open>path\<close>, in the order of the walk, each path built
  with \<open>join\<close> as \<^verbatim>\<open>Walk\<close> builds it.
\<close>

fun readable :: "fsnode \<Rightarrow> bool"
and readable_names :: "(string \<times> fsnode) list \<Rightarrow> bool"
where
  "readable (LstatFails err) = False"
| "readable File = True"
| "readable (DirUnreadable err) = False"
| "readable (Dir entries) = readable_names entries"
| "readable_names [] = True"
| "readable_names ((name, node) # rest) = (readable node \<and> readable_names rest)"

fun files_in :: "(string \<Rightarrow> string \<Rightarrow> string) \<Rightarrow> string \<Rightarrow> fsnode \<Rightarrow> string list"
and files_in_names :: "(string \<Rightarrow> string \<Rightarrow> string) \<Rightarrow> string \<Rightarrow> (string \<times> fsnode) list \<Rightarrow> string list"
where
  "files_in join path (LstatFails err) = []"
| "files_in join path File = [path]"
| "files_in join path (DirUnreadable err) = []"
| "files_in join path (Dir entries) = files_in_names join path entries"
| "files_in_names join path [] = []"
| "files_in_names join path ((name, node) # rest) =
     files_in join (join path name) node @ files_in_names join path rest"

text \<open>
  What one argument adds to the collected list when collection succeeds: the argument
  itself when \<^verbatim>\<open>os.Stat\<close> says it is not a directory, the YAML files under it otherwise.
\<close>

definition contribution :: "os_world \<Rightarrow> string \<Rightarrow> string list" where
  "contribution w filename =
     (case os_Stat w filename of
        Inl err \<Rightarrow> []
      | Inr info \<Rightarrow>
          if IsDir info
          then filter yaml_ext (files_in (filepath_Join w) filename (walk_root w filename))
          else [filename])"

text \<open>
  The first error \<^verbatim>\<open>Walk\<close> meets in a tree, in the order of the walk, and the error an
  argument makes the collection return: the wrapped failure of \<^verbatim>\<open>os.Stat\<close>, or for a
  directory the wrapped first error of its walk; \<open>None\<close> when the argument is collected.
\<close>

fun first_error :: "fsnode \<Rightarrow> error option"
and first_error_names :: "(string \<times> fsnode) list \<Rightarrow> error option"
where
  "first_error (LstatFails err) = Some err"
| "first_error File = None"
| "first_error (DirUnreadable err) = Some err"
| "first_error (Dir entries) = first_error_names entries"
| "first_error_names [] = None"
| "first_error_names ((name, node) # rest) =
     (case first_error node of
        Some err \<Rightarrow> Some err
      | None \<Rightarrow> first_error_names rest)"

definition argument_error :: "os_world \<Rightarrow> string \<Rightarrow> error option" where
  "argument_error w filename =
     (case os_Stat w filename of
        Inl err \<Rightarrow> Some (ErrWrap (''failed to access '' @ filename @ '': '') err)
      | Inr info \<Rightarrow>
          if IsDir info
          then (case first_error (walk_root w filename) of
                  Some err \<Rightarrow> Some (ErrWrap (''failed to walk directory '' @ filename @ '': '') err)
                | None \<Rightarrow> None)
          else None)"

text \<open>The calls of a trace that stage a file, pack, tag, set the repository up, or push.\<close>

fun is_stage :: "event \<Rightarrow> bool" where
  "is_stage (Call (CallStoreAdd name mediaType path) r) = True"
| "is_stage ev = False"

fun is_pack :: "event \<Rightarrow> bool" where
  "is_pack (Call (CallPackManifest artifactType layers) r) = True"
| "is_pack ev = False"

fun is_tag :: "event \<Rightarrow> bool" where
  "is_tag (Call (CallStoreTag desc reference) r) = True"
| "is_tag ev = False"

fun is_setup :: "event \<Rightarrow> bool" where
  "is_setup (Call (CallSetupRepository reference) r) = True"
| "is_setup ev = False"

fun is_push :: "event \<Rightarrow> bool" where
  "is_push (Call (CallCopy src dst) r) = True"
| "is_push ev = False"

text \<open>The paths whose staging succeeded, and whether some staging failed, in a trace.\<close>

fun staged :: "event list \<Rightarrow> string list" where
  "staged [] = []"
| "staged (Call (CallStoreAdd name mediaType path) None # tr) = path # staged tr"
| "staged (ev # tr) = staged tr"

fun stage_failed :: "event \<Rightarrow> bool" where
  "stage_failed (Call (CallStoreAdd name mediaType path) (Some err)) = True"
| "stage_failed ev = False"

text \<open>What is written into the \<^verbatim>\<open>tabwriter\<close>, in order.\<close>

fun tab_writes :: "event list \<Rightarrow> string list" where
  "tab_writes [] = []"
| "tab_writes (TabWrite s # tr) = s # tab_writes tr"
| "tab_writes (ev # tr) = tab_writes tr"

subsection \<open>A concrete world\<close>

text \<open>
  A working directory with the files \<^verbatim>\<open>a.yaml\<close> and \<^verbatim>\<open>notes.txt\<close>, the directory \<^verbatim>\<open>rgds\<close>
  (two YAML files, two other files, and a directory named \<^verbatim>\<open>sub.yaml\<close>), the directory
  \<^verbatim>\<open>docs\<close> without any YAML file and the directory \<^verbatim>\<open>locked\<close> that cannot be read.
\<close>

definition example_os :: os_world where
  "example_os =
     \<lparr>os_Stat = (\<lambda>p.
         if p \<in> {''rgds'', ''docs'', ''locked''} then Inr \<lparr>IsDir = True\<rparr>
         else if p \<in> {''a.yaml'', ''notes.txt'', ''rgds/stack.yaml''} then Inr \<lparr>IsDir = False\<rparr>
         else Inl (ErrExternal (''stat '' @ p @ '': no such file or directory''))),
       walk_root = (\<lambda>p.
         if p = ''rgds'' then
           Dir [(''README.md'', File),
                (''net'', Dir [(''vpc.yml'', File), (''x.json'', File)]),
                (''stack.yaml'', File),
                (''sub.yaml'', Dir [])]
         else if p = ''docs'' then Dir [(''index.md'', File)]
         else if p = ''locked'' then
           DirUnreadable (ErrExternal ''open locked: permission denied'')
         else if p \<in> {''a.yaml'', ''notes.txt'', ''rgds/stack.yaml''} then File
         else LstatFails (ErrExternal (''lstat '' @ p @ '': no such file or directory''))),
       filepath_Join = (\<lambda>p name. p @ ''/'' @ name)\<rparr>"

text \<open>
  oras parsing two references, one of a local registry and one of a remote one, and a
  Docker credential store that opens.
\<close>

definition example_oci :: oci_world where
  "example_oci =
     \<lparr>registry_ParseReference = (\<lambda>s.
         if s = ''localhost:5001/stack:v1''
         then Inr \<lparr>Registry = ''localhost:5001'', Repository = ''stack'', ref_Reference = ''v1''\<rparr>
         else if s = ''ghcr.io/acme/stack:v1''
         then Inr \<lparr>Registry = ''ghcr.io'', Repository = ''acme/stack'', ref_Reference = ''v1''\<rparr>
         else Inl (ErrExternal ''invalid reference'')),
       credentials_NewStoreFromDocker = Inr (DockerCredentials ''config.json'')\<rparr>"

text \<open>
  A file store whose state is the list of the names added so far. Adding a name twice
  fails, and \<^verbatim>\<open>notes.txt\<close> cannot be opened; packing, tagging and copying succeed.
\<close>

definition example_push :: "string list push_world" where
  "example_push =
     \<lparr>push_os = example_os,
       push_oci = example_oci,
       file_New = Inr [],
       store_Add = (\<lambda>names name mediaType path.
         if name \<in> set names then Inl (ErrExternal ''duplicate name'')
         else if path = ''notes.txt'' then Inl (ErrExternal ''open notes.txt: permission denied'')
         else Inr (\<lparr>MediaType = mediaType, Digest = ''sha256:'' @ name, Size = 1,
                     Annotations = Some [AnnotationTitle \<mapsto> name]\<rparr>, names @ [name])),
       oras_PackManifest = (\<lambda>names artifactType layers.
         Inr (\<lparr>MediaType = ''application/vnd.oci.image.manifest.v1+json'',
                Digest = ''sha256:manifest'', Size = 2, Annotations = None\<rparr>, names)),
       store_Tag = (\<lambda>names desc reference. Inr names),
       oras_Copy = (\<lambda>names src repo dst.
         Inr \<lparr>MediaType = ''application/vnd.oci.image.manifest.v1+json'',
              Digest = ''sha256:manifest'', Size = 2, Annotations = None\<rparr>)\<rparr>"

text \<open>
  A registry holding two artifacts: \<^verbatim>\<open>localhost:5001/stack:v1\<close> without layers and without
  annotations on its config, and \<^verbatim>\<open>ghcr.io/acme/stack:v1\<close> whose creation annotation is not
  a timestamp and whose three layers have a title, no annotations, and annotations without
  a title. The bytes of a manifest are represented by the reference it was fetched by.
\<close>

definition example_manifest_empty :: manifest where
  "example_manifest_empty =
     \<lparr>Config = \<lparr>MediaType = ''application/vnd.oci.empty.v1+json'', Digest = ''sha256:config'',
                 Size = 2, Annotations = None\<rparr>,
       Layers = []\<rparr>"

definition example_manifest :: manifest where
  "example_manifest =
     \<lparr>Config = \<lparr>MediaType = ''application/vnd.oci.empty.v1+json'', Digest = ''sha256:config'',
                 Size = 2, Annotations = Some [AnnotationCreated \<mapsto> ''yesterday'']\<rparr>,
       Layers =
         [\<lparr>MediaType = LayerMediaType, Digest = ''sha256:aa'', Size = 10,
            Annotations = Some [AnnotationTitle \<mapsto> ''vpc.yaml'']\<rparr>,
          \<lparr>MediaType = LayerMediaType, Digest = ''sha256:bb'', Size = 20,
            Annotations = None\<rparr>,
          \<lparr>MediaType = LayerMediaType, Digest = ''sha256:cc'', Size = 30,
            Annotations = Some [''vendor'' \<mapsto> ''acme'']\<rparr>]\<rparr>"

definition example_inspect :: "string inspect_world" where
  "example_inspect =
     \<lparr>inspect_oci = example_oci,
       repo_FetchReference = (\<lambda>repo reference.
         Inr (\<lparr>MediaType = ''application/vnd.oci.image.manifest.v1+json'',
                Digest = ''sha256:manifest'', Size = 2, Annotations = None\<rparr>,
              Reader (Inr reference))),
       json_Unmarshal = (\<lambda>bytes.
         if bytes = ''localhost:5001/stack:v1'' then Inr example_manifest_empty
         else Inr example_manifest),
       time_Parse = (\<lambda>s.
         if s = ''2024-01-02T03:04:05Z'' then Inr s
         else Inl (ErrExternal ''cannot parse as RFC3339'')),
       time_Format = (\<lambda>t. t)\<rparr>"

section \<open>Properties of the file collection\<close>

lemma push_walkFn_file:
  "push_walkFn path (Some \<lparr>IsDir = False\<rparr>) None acc =
     (None, if yaml_ext path then acc @ [path] else acc)"
  by (simp add: push_walkFn_def yaml_ext_def)

lemma push_walkFn_dir:
  "push_walkFn path (Some \<lparr>IsDir = True\<rparr>) None acc = (None, acc)"
  by (simp add: push_walkFn_def)

lemma push_walkFn_err:
  "push_walkFn path info (Some err) acc = (Some err, acc)"
  by (simp add: push_walkFn_def)

text \<open>On a readable tree the walk ends without error, having appended the YAML files.\<close>

lemma walk_readable:
  "readable node \<Longrightarrow>
     walk join push_walkFn path node acc =
       (None, acc @ filter yaml_ext (files_in join path node))"
  "readable_names entries \<Longrightarrow>
     walk_names join push_walkFn path entries acc =
       (None, acc @ filter yaml_ext (files_in_names join path entries))"
proof (induction join "push_walkFn" path node acc and join "push_walkFn" path entries acc
       rule: walk_walk_names.induct)
  case (2 join path s)
  show ?case by (simp add: push_walkFn_file)
next
  case (4 join path entries s)
  then show ?case by (simp add: push_walkFn_dir)
next
  case (6 join path name node rest s)
  then show ?case by simp
qed simp_all

text \<open>Conversely, a walk that ends without error went through a readable tree.\<close>

lemma walk_success_readable:
  "walk join push_walkFn path node acc = (None, acc') \<Longrightarrow> readable node"
  "walk_names join push_walkFn path entries acc = (None, acc') \<Longrightarrow> readable_names entries"
proof (induction join "push_walkFn" path node acc and join "push_walkFn" path entries acc
       arbitrary: acc' and acc' rule: walk_walk_names.induct)
  case (4 join path entries s)
  then show ?case by (simp add: push_walkFn_dir)
next
  case (6 join path name node rest s)
  then show ?case by (auto split: prod.splits option.splits)
qed (simp_all add: push_walkFn_err)

lemma collect_step_file:
  "os_Stat w f = Inr info \<Longrightarrow> \<not> IsDir info \<Longrightarrow>
     RunPush_collect w (f # rest) acc = RunPush_collect w rest (acc @ [f])"
  by simp

lemma collect_step_dir:
  "os_Stat w d = Inr info \<Longrightarrow> IsDir info \<Longrightarrow> readable (walk_root w d) \<Longrightarrow>
     RunPush_collect w (d # rest) acc =
       RunPush_collect w rest (acc @ filter yaml_ext (files_in (filepath_Join w) d (walk_root w d)))"
  by (simp add: filepath_Walk_def walk_readable)

lemma collect_concat:
  "RunPush_collect w args acc = Inr files \<Longrightarrow> files = acc @ concat (map (contribution w) args)"
proof (induction args arbitrary: acc)
  case Nil
  then show ?case by simp
next
  case (Cons a args)
  show ?case
  proof (cases "os_Stat w a")
    case (Inl err)
    with Cons.prems show ?thesis by simp
  next
    case (Inr info)
    show ?thesis
    proof (cases "IsDir info")
      case False
      with Inr Cons.prems have "RunPush_collect w args (acc @ [a]) = Inr files" by simp
      from Cons.IH[OF this] Inr False show ?thesis by (simp add: contribution_def)
    next
      case True
      obtain r acc' where wk: "filepath_Walk w a push_walkFn acc = (r, acc')"
        by (cases "filepath_Walk w a push_walkFn acc")
      with Inr True Cons.prems have r: "r = None" and rest: "RunPush_collect w args acc' = Inr files"
        by (auto split: option.splits)
      from wk r have rd: "readable (walk_root w a)"
        by (auto simp: filepath_Walk_def dest: walk_success_readable(1))
      with wk r have "acc' = acc @ filter yaml_ext (files_in (filepath_Join w) a (walk_root w a))"
        by (simp add: filepath_Walk_def walk_readable)
      with Cons.IH[OF rest] Inr True show ?thesis by (simp add: contribution_def)
    qed
  qed
qed

lemma count_list_concat:
  "count_list (concat xss) p = sum_list (map (\<lambda>xs. count_list xs p) xss)"
  by (induction xss) simp_all

lemma readable_first_error:
  "readable node \<longleftrightarrow> first_error node = None"
  "readable_names entries \<longleftrightarrow> first_error_names entries = None"
  by (induction node and entries rule: readable_readable_names.induct)
     (auto split: option.splits)

lemma walk_first_error:
  "fst (walk join push_walkFn path node acc) = first_error node"
  "fst (walk_names join push_walkFn path entries acc) = first_error_names entries"
proof (induction join "push_walkFn" path node acc and join "push_walkFn" path entries acc
       rule: walk_walk_names.induct)
  case (1 join path err s)
  show ?case by (simp add: push_walkFn_err)
next
  case (2 join path s)
  show ?case by (simp add: push_walkFn_file)
next
  case (3 join path err s)
  show ?case by (simp add: push_walkFn_err)
next
  case (4 join path entries s)
  then show ?case by (simp add: push_walkFn_dir)
next
  case (5 join path s)
  show ?case by simp
next
  case (6 join path name node rest s)
  obtain r s' where wk: "walk join push_walkFn (join path name) node s = (r, s')"
    by (cases "walk join push_walkFn (join path name) node s")
  with "6"(1) have r: "r = first_error node" by simp
  show ?case
  proof (cases r)
    case None
    with wk "6"(2) r show ?thesis by auto
  next
    case (Some err)
    with r have fe: "first_error node = Some err" by simp
    from wk r have "walk join push_walkFn (join path name) node s = (first_error node, s')"
      by simp
    with fe show ?thesis by simp
  qed
qed

lemma argument_error_None:
  "argument_error w a = None \<longleftrightarrow>
     (\<exists>info. os_Stat w a = Inr info \<and> (IsDir info \<longrightarrow> readable (walk_root w a)))"
  by (auto simp: argument_error_def readable_first_error split: sum.splits option.splits)

lemma collect_step_ok:
  assumes "argument_error w a = None"
  shows "RunPush_collect w (a # rest) acc = RunPush_collect w rest (acc @ contribution w a)"
proof -
  from assms obtain info where st: "os_Stat w a = Inr info"
    and rd: "IsDir info \<longrightarrow> readable (walk_root w a)"
    by (auto simp: argument_error_None)
  show ?thesis
  proof (cases "IsDir info")
    case True
    with rd have "readable (walk_root w a)" by simp
    from collect_step_dir [OF st True this] st True show ?thesis
      by (simp add: contribution_def del: RunPush_collect.simps(2))
  next
    case False
    from collect_step_file [OF st False] st False show ?thesis
      by (simp add: contribution_def del: RunPush_collect.simps(2))
  qed
qed

lemma collect_ok:
  "\<forall>a \<in> set args. argument_error w a = None \<Longrightarrow>
     RunPush_collect w args acc = Inr (acc @ concat (map (contribution w) args))"
proof (induction args arbitrary: acc)
  case Nil
  show ?case by simp
next
  case (Cons a args)
  then have a: "argument_error w a = None" and rest: "\<forall>b \<in> set args. argument_error w b = None"
    by simp_all
  from collect_step_ok [OF a] Cons.IH [OF rest] show ?case
    by (simp del: RunPush_collect.simps(2))
qed

lemma collect_step_error:
  assumes "argument_error w a = Some err"
  shows "RunPush_collect w (a # rest) acc = Inl err"
proof (cases "os_Stat w a")
  case (Inl e)
  with assms show ?thesis by (simp add: argument_error_def)
next
  case (Inr info)
  with assms have dir: "IsDir info" by (auto simp: argument_error_def split: if_splits)
  with assms Inr obtain e where fe: "first_error (walk_root w a) = Some e"
    and err: "err = ErrWrap (''failed to walk directory '' @ a @ '': '') e"
    by (auto simp: argument_error_def split: option.splits)
  obtain r acc' where wk: "filepath_Walk w a push_walkFn acc = (r, acc')"
    by (cases "filepath_Walk w a push_walkFn acc")
  then have "r = first_error (walk_root w a)"
    using walk_first_error(1) [of "filepath_Join w" a "walk_root w a" acc]
    by (simp add: filepath_Walk_def)
  with fe wk Inr dir err show ?thesis by simp
qed

lemma collect_first_error:
  assumes "\<forall>b \<in> set good. argument_error w b = None" and "argument_error w a = Some err"
  shows "RunPush_collect w (good @ a # rest) acc = Inl err"
  using assms(1)
proof (induction good arbitrary: acc)
  case Nil
  show ?case using collect_step_error [OF assms(2)] by simp
next
  case (Cons b good)
  then have b: "argument_error w b = None" and rest: "\<forall>c \<in> set good. argument_error w c = None"
    by simp_all
  from collect_step_ok [OF b] Cons.IH [OF rest] show ?case
    by (simp del: RunPush_collect.simps(2))
qed

lemma contribution_dir:
  "os_Stat w d = Inr info \<Longrightarrow> IsDir info \<Longrightarrow>
     contribution w d = filter yaml_ext (files_in (filepath_Join w) d (walk_root w d))"
  by (simp add: contribution_def)

text \<open>The example directory \<^verbatim>\<open>rgds\<close>: its four files, two of them YAML files.\<close>

lemma example_rgds_files:
  "files_in (filepath_Join example_os) ''rgds'' (walk_root example_os ''rgds'') =
     [''rgds/README.md'', ''rgds/net/vpc.yml'', ''rgds/net/x.json'', ''rgds/stack.yaml'']"
  by (simp add: example_os_def)

lemma example_yaml:
  "\<not> yaml_ext ''rgds/README.md''" "yaml_ext ''rgds/net/vpc.yml''"
  "\<not> yaml_ext ''rgds/net/x.json''" "yaml_ext ''rgds/stack.yaml''"
  by (simp_all add: yaml_ext_def Ext_def)

lemma example_collect_mixed:
  "RunPush_collect example_os [''rgds'', ''notes.txt''] [] =
     Inr [''rgds/net/vpc.yml'', ''rgds/stack.yaml'', ''notes.txt'']"
proof -
  have s: "os_Stat example_os ''rgds'' = Inr \<lparr>IsDir = True\<rparr>"
    by (simp add: example_os_def)
  have r: "readable (walk_root example_os ''rgds'')"
    by (simp add: example_os_def)
  have t: "os_Stat example_os ''notes.txt'' = Inr \<lparr>IsDir = False\<rparr>"
    by (simp add: example_os_def)
  have d: "IsDir \<lparr>IsDir = True\<rparr>" and f: "\<not> IsDir \<lparr>IsDir = False\<rparr>"
    by simp_all
  show ?thesis
    by (simp add: collect_step_dir [OF s d r] collect_step_file [OF t f] example_rgds_files example_yaml
             del: RunPush_collect.simps(2))
qed

lemma example_notes_ok: "argument_error example_os ''notes.txt'' = None"
  by (simp add: argument_error_def example_os_def)

text \<open>
  Claim C2. Let \<open>d\<close> be an argument that \<^verbatim>\<open>os.Stat\<close> reports as a directory and that \<^verbatim>\<open>Walk\<close>
  reads without error, holding \<open>N\<close> files with the extension \<^verbatim>\<open>.yaml\<close> or \<^verbatim>\<open>.yml\<close> and \<open>M\<close>
  files with another extension. Collecting \<open>d\<close> alone returns exactly the \<open>N\<close> matching
  paths, in the order of the walk. Among other arguments that are collected without error
  the collection succeeds, and whenever it succeeds the list is what the arguments before
  \<open>d\<close> contribute, then exactly those \<open>N\<close> paths, then what the arguments after \<open>d\<close>
  contribute. None of the \<open>M\<close> other files is contributed by \<open>d\<close>, and no directory is,
  since only non-directories are among the files of the tree.
\<close>

theorem directory_contributes_yaml_files:
  assumes "os_Stat w d = Inr info" and "IsDir info" and "readable (walk_root w d)"
    and "fs = files_in (filepath_Join w) d (walk_root w d)"
    and "length (filter yaml_ext fs) = N"
    and "length (filter (\<lambda>p. \<not> yaml_ext p) fs) = M"
  shows "RunPush_collect w [d] [] = Inr (filter yaml_ext fs) \<and>
         (\<forall>pre post.
            (\<forall>a \<in> set pre \<union> set post. argument_error w a = None) \<longrightarrow>
            RunPush_collect w (pre @ d # post) [] =
              Inr (concat (map (contribution w) pre) @ filter yaml_ext fs @
                   concat (map (contribution w) post))) \<and>
         (\<forall>pre post files.
            RunPush_collect w (pre @ d # post) [] = Inr files \<longrightarrow>
            files = concat (map (contribution w) pre) @ filter yaml_ext fs @
                    concat (map (contribution w) post)) \<and>
         length (filter yaml_ext fs) = N \<and>
         length fs = N + M \<and>
         (\<forall>p \<in> set fs. p \<in> set (filter yaml_ext fs) \<longleftrightarrow> yaml_ext p)"
proof -
  have cd: "contribution w d = filter yaml_ext fs"
    using contribution_dir [OF assms(1,2)] assms(4) by simp
  have ok: "argument_error w d = None"
    using assms(1-3) by (auto simp: argument_error_None)
  have one: "RunPush_collect w [d] [] = Inr (filter yaml_ext fs)"
    using collect_ok [of "[d]" w "[]"] ok cd by simp
  have total: "RunPush_collect w (pre @ d # post) [] =
                 Inr (concat (map (contribution w) pre) @ filter yaml_ext fs @
                      concat (map (contribution w) post))"
    if "\<forall>a \<in> set pre \<union> set post. argument_error w a = None" for pre post
  proof -
    from that ok have "\<forall>a \<in> set (pre @ d # post). argument_error w a = None" by auto
    from collect_ok [OF this, of "[]"] cd show ?thesis by simp
  qed
  have partial: "files = concat (map (contribution w) pre) @ filter yaml_ext fs @
                         concat (map (contribution w) post)"
    if "RunPush_collect w (pre @ d # post) [] = Inr files" for pre post files
    using collect_concat [OF that] cd by simp
  have "length fs = length (filter yaml_ext fs) + length (filter (\<lambda>p. \<not> yaml_ext p) fs)"
    by (rule sum_length_filter_compl [symmetric])
  with assms(5,6) have len: "length fs = N + M" by simp
  have mem: "\<forall>p \<in> set fs. p \<in> set (filter yaml_ext fs) \<longleftrightarrow> yaml_ext p" by simp
  from one total partial assms(5) len mem show ?thesis by blast
qed

theorem directory_contributes_yaml_files_witness:
  "os_Stat example_os ''rgds'' = Inr \<lparr>IsDir = True\<rparr> \<and>
   readable (walk_root example_os ''rgds'') \<and>
   files_in (filepath_Join example_os) ''rgds'' (walk_root example_os ''rgds'') =
     [''rgds/README.md'', ''rgds/net/vpc.yml'', ''rgds/net/x.json'', ''rgds/stack.yaml''] \<and>
   RunPush_collect example_os [''rgds''] [] = Inr [''rgds/net/vpc.yml'', ''rgds/stack.yaml''] \<and>
   contribution example_os ''notes.txt'' = [''notes.txt''] \<and>
   RunPush_collect example_os [''rgds'', ''notes.txt''] [] =
     Inr [''rgds/net/vpc.yml'', ''rgds/stack.yaml'', ''notes.txt'']"
proof -
  have s: "os_Stat example_os ''rgds'' = Inr \<lparr>IsDir = True\<rparr>"
    by (simp add: example_os_def)
  have d: "IsDir \<lparr>IsDir = True\<rparr>" by simp
  have r: "readable (walk_root example_os ''rgds'')"
    by (simp add: example_os_def)
  have n: "length (filter yaml_ext [''rgds/README.md'', ''rgds/net/vpc.yml'', ''rgds/net/x.json'', ''rgds/stack.yaml'']) = 2"
    by (simp add: example_yaml)
  have m: "length (filter (\<lambda>p. \<not> yaml_ext p) [''rgds/README.md'', ''rgds/net/vpc.yml'', ''rgds/net/x.json'', ''rgds/stack.yaml'']) = 2"
    by (simp add: example_yaml)
  have y: "filter yaml_ext [''rgds/README.md'', ''rgds/net/vpc.yml'', ''rgds/net/x.json'', ''rgds/stack.yaml''] =
             [''rgds/net/vpc.yml'', ''rgds/stack.yaml'']"
    by (simp add: example_yaml)
  have c: "contribution example_os ''notes.txt'' = [''notes.txt'']"
    by (simp add: contribution_def example_os_def)
  note t = directory_contributes_yaml_files [OF s d r example_rgds_files [symmetric] n m]
  from t have one: "RunPush_collect example_os [''rgds''] [] = Inr [''rgds/net/vpc.yml'', ''rgds/stack.yaml'']"
    by (simp only: y)
  have g: "\<forall>a \<in> set [] \<union> set [''notes.txt'']. argument_error example_os a = None"
    using example_notes_ok by simp
  from t [THEN conjunct2, THEN conjunct1, THEN spec, THEN spec, THEN mp, OF g]
  have two: "RunPush_collect example_os [''rgds'', ''notes.txt''] [] =
               Inr [''rgds/net/vpc.yml'', ''rgds/stack.yaml'', ''notes.txt'']"
    by (simp add: example_yaml c del: RunPush_collect.simps(2))
  from s r example_rgds_files one c two show ?thesis by (intro conjI)
qed

text \<open>
  Claim C3. When the collection succeeds, every argument that \<^verbatim>\<open>os.Stat\<close> reports as
  existing and not a directory is in the collected list, as the very string given, whatever
  its extension.
\<close>

theorem explicit_file_collected:
  assumes "RunPush_collect w args [] = Inr files"
    and "f \<in> set args" and "os_Stat w f = Inr info" and "\<not> IsDir info"
  shows "f \<in> set files"
proof -
  have "files = concat (map (contribution w) args)"
    using collect_concat [OF assms(1)] by simp
  moreover from assms(3,4) have "contribution w f = [f]"
    by (simp add: contribution_def)
  ultimately show ?thesis using assms(2) by force
qed

theorem explicit_file_collected_witness:
  "RunPush_collect example_os [''rgds'', ''notes.txt''] [] =
     Inr [''rgds/net/vpc.yml'', ''rgds/stack.yaml'', ''notes.txt''] \<and>
   os_Stat example_os ''notes.txt'' = Inr \<lparr>IsDir = False\<rparr> \<and>
   Ext ''notes.txt'' = ''.txt'' \<and>
   ''notes.txt'' \<in> set [''rgds/net/vpc.yml'', ''rgds/stack.yaml'', ''notes.txt'']"
proof -
  have t: "os_Stat example_os ''notes.txt'' = Inr \<lparr>IsDir = False\<rparr>"
    by (simp add: example_os_def)
  have f: "\<not> IsDir \<lparr>IsDir = False\<rparr>" by simp
  have m: "''notes.txt'' \<in> set [''rgds'', ''notes.txt'']" by simp
  have "''notes.txt'' \<in> set [''rgds/net/vpc.yml'', ''rgds/stack.yaml'', ''notes.txt'']"
    using explicit_file_collected [OF example_collect_mixed m t f] by simp
  with example_collect_mixed t show ?thesis by (simp add: Ext_def)
qed

text \<open>
  Claim C4, as stated, fails: the collection removes no duplicates. Naming the existing
  file \<^verbatim>\<open>a.yaml\<close> twice yields a list in which it occurs twice.
\<close>

theorem collected_list_deduplicated_counterexample:
  "os_Stat example_os ''a.yaml'' = Inr \<lparr>IsDir = False\<rparr> \<and>
   RunPush_collect example_os [''a.yaml'', ''a.yaml''] [] = Inr [''a.yaml'', ''a.yaml''] \<and>
   \<not> distinct [''a.yaml'', ''a.yaml'']"
  by (simp add: example_os_def)

text \<open>
  Claim C4, amended. The collected list is flattened, not deduplicated: it is the
  concatenation, in the order of the arguments, of what each argument contributes, so a
  path occurs in it once for every time an argument contributes it.
\<close>

theorem collected_list_is_concatenation:
  assumes "RunPush_collect w args [] = Inr files"
  shows "files = concat (map (contribution w) args) \<and>
         count_list files p = sum_list (map (\<lambda>a. count_list (contribution w a) p) args)"
proof -
  have c: "files = concat (map (contribution w) args)"
    using collect_concat [OF assms] by simp
  then have "count_list files p = sum_list (map (\<lambda>xs. count_list xs p) (map (contribution w) args))"
    by (simp only: count_list_concat)
  with c show ?thesis by (simp add: comp_def)
qed

theorem collected_list_is_concatenation_witness:
  "RunPush_collect example_os [''rgds'', ''notes.txt''] [] =
     Inr [''rgds/net/vpc.yml'', ''rgds/stack.yaml'', ''notes.txt''] \<and>
   [''rgds/net/vpc.yml'', ''rgds/stack.yaml'', ''notes.txt''] =
     concat (map (contribution example_os) [''rgds'', ''notes.txt''])"
proof -
  have "[''rgds/net/vpc.yml'', ''rgds/stack.yaml'', ''notes.txt''] =
          concat (map (contribution example_os) [''rgds'', ''notes.txt''])"
    using collected_list_is_concatenation [OF example_collect_mixed, of "[]"] by (rule conjunct1)
  with example_collect_mixed show ?thesis by (rule conjI)
qed

section \<open>Properties of \<^verbatim>\<open>SetupRepository\<close>\<close>

lemma SetupRepository_Inr:
  assumes "SetupRepository w reference = Inr repo"
  shows "\<exists>ref cred. registry_ParseReference w reference = Inr ref \<and>
           credentials_NewStoreFromDocker w = Inr cred \<and>
           repo = \<lparr>repo_Reference = ref,
                   PlainHTTP = (prefix ''localhost:'' (Host ref) \<or> prefix ''127.0.0.1:'' (Host ref) \<or>
                                prefix ''::1:'' (Host ref)),
                   Client = Some \<lparr>Credential = cred\<rparr>\<rparr>"
  using assms
  by (auto simp: SetupRepository_def remote_NewRepository_def Let_def split: sum.splits if_splits)

lemma example_setup_local:
  "SetupRepository example_oci ''localhost:5001/stack:v1'' =
     Inr \<lparr>repo_Reference = \<lparr>Registry = ''localhost:5001'', Repository = ''stack'', ref_Reference = ''v1''\<rparr>,
          PlainHTTP = True, Client = Some \<lparr>Credential = DockerCredentials ''config.json''\<rparr>\<rparr>"
  by (simp add: SetupRepository_def remote_NewRepository_def example_oci_def Host_def)

lemma example_setup_remote:
  "SetupRepository example_oci ''ghcr.io/acme/stack:v1'' =
     Inr \<lparr>repo_Reference = \<lparr>Registry = ''ghcr.io'', Repository = ''acme/stack'', ref_Reference = ''v1''\<rparr>,
          PlainHTTP = False, Client = Some \<lparr>Credential = DockerCredentials ''config.json''\<rparr>\<rparr>"
  by (simp add: SetupRepository_def remote_NewRepository_def example_oci_def Host_def)

text \<open>
  Claim C5. Whenever \<^verbatim>\<open>SetupRepository\<close> returns a repository, its host is the host of the
  parsed reference, and plain HTTP is enabled if and only if that host starts with
  \<^verbatim>\<open>localhost:\<close>, \<^verbatim>\<open>127.0.0.1:\<close> or \<^verbatim>\<open>::1:\<close>; for every other host the transport stays
  encrypted. So \<^verbatim>\<open>localhost:5001\<close> gets plain HTTP and \<^verbatim>\<open>ghcr.io\<close> does not.
\<close>

theorem plain_http_iff_loopback_prefix:
  assumes "SetupRepository w reference = Inr repo"
  shows "registry_ParseReference w reference = Inr (repo_Reference repo) \<and>
         (PlainHTTP repo \<longleftrightarrow>
            prefix ''localhost:'' (Host (repo_Reference repo)) \<or>
            prefix ''127.0.0.1:'' (Host (repo_Reference repo)) \<or>
            prefix ''::1:'' (Host (repo_Reference repo)))"
  using SetupRepository_Inr [OF assms] by auto

theorem plain_http_iff_loopback_prefix_witness:
  "SetupRepository example_oci ''localhost:5001/stack:v1'' =
     Inr \<lparr>repo_Reference = \<lparr>Registry = ''localhost:5001'', Repository = ''stack'', ref_Reference = ''v1''\<rparr>,
          PlainHTTP = True, Client = Some \<lparr>Credential = DockerCredentials ''config.json''\<rparr>\<rparr> \<and>
   Host \<lparr>Registry = ''localhost:5001'', Repository = ''stack'', ref_Reference = ''v1''\<rparr> = ''localhost:5001'' \<and>
   prefix ''localhost:'' ''localhost:5001'' \<and>
   SetupRepository example_oci ''ghcr.io/acme/stack:v1'' =
     Inr \<lparr>repo_Reference = \<lparr>Registry = ''ghcr.io'', Repository = ''acme/stack'', ref_Reference = ''v1''\<rparr>,
          PlainHTTP = False, Client = Some \<lparr>Credential = DockerCredentials ''config.json''\<rparr>\<rparr> \<and>
   Host \<lparr>Registry = ''ghcr.io'', Repository = ''acme/stack'', ref_Reference = ''v1''\<rparr> = ''ghcr.io'' \<and>
   \<not> prefix ''localhost:'' ''ghcr.io'' \<and> \<not> prefix ''127.0.0.1:'' ''ghcr.io'' \<and> \<not> prefix ''::1:'' ''ghcr.io''"
  using plain_http_iff_loopback_prefix [OF example_setup_local]
        plain_http_iff_loopback_prefix [OF example_setup_remote]
  by (simp add: example_setup_local example_setup_remote Host_def)

section \<open>Properties of \<^verbatim>\<open>RunInspect\<close>\<close>

lemma tab_writes_append: "tab_writes (xs @ ys) = tab_writes xs @ tab_writes ys"
  by (induction xs rule: tab_writes.induct) simp_all

lemma tab_writes_created: "tab_writes (RunInspect_created w m) = []"
  by (simp add: RunInspect_created_def split: option.splits sum.splits)

lemma rows_length: "length (tab_writes (RunInspect_rows layers)) = length layers"
  by (induction layers) (simp_all add: Let_def)

lemma rows_nth_unknown:
  assumes "i < length layers"
    and "Annotations (layers ! i) = None \<or>
         (\<exists>a. Annotations (layers ! i) = Some a \<and> a AnnotationTitle = None)"
  shows "tab_writes (RunInspect_rows layers) ! i = ''unknown'' @ tab @ Digest (layers ! i) @ nl"
  using assms
proof (induction layers arbitrary: i)
  case Nil
  then show ?case by simp
next
  case (Cons l ls)
  show ?case
  proof (cases i)
    case 0
    with Cons.prems(2) show ?thesis by (auto simp: Let_def)
  next
    case (Suc j)
    with Cons.prems have "j < length ls"
      and "Annotations (ls ! j) = None \<or> (\<exists>a. Annotations (ls ! j) = Some a \<and> a AnnotationTitle = None)"
      by simp_all
    from Cons.IH [OF this] Suc show ?thesis by (simp add: Let_def)
  qed
qed

lemma rows_no_print: "Print s \<notin> set (RunInspect_rows layers)"
  by (induction layers) (simp_all add: Let_def)

lemma rows_no_call: "Call c r \<notin> set (RunInspect_rows layers)"
  by (induction layers) (simp_all add: Let_def)

text \<open>The run of inspect once the manifest is fetched, read and parsed.\<close>

lemma RunInspect_parsed:
  assumes "SetupRepository (inspect_oci w) (inspect_Reference opts) = Inr repo"
    and "repo_FetchReference w repo (inspect_Reference opts) = Inr (manifestDesc, rc)"
    and "io_ReadAll rc = Inr manifestBytes"
    and "json_Unmarshal w manifestBytes = Inr m"
  shows "RunInspect w opts =
           (fst (RunInspect_report w repo manifestDesc m),
            [Log Info ''Inspecting artifact'',
             Call (CallSetupRepository (inspect_Reference opts)) None]
            @ (if PlainHTTP repo then [Log Debug ''Using plain HTTP for local registry''] else [])
            @ [Call (CallFetchReference (inspect_Reference opts)) None,
               Log Debug ''Fetched manifest'', Call CallReadAll None, Call CallUnmarshal None]
            @ snd (RunInspect_report w repo manifestDesc m) @ [Call CallRcClose None])"
  using assms by (simp add: RunInspect_def Let_def split: prod.splits)

lemma report_succeeds: "fst (RunInspect_report w repo manifestDesc m) = None"
  by (simp add: RunInspect_report_def Let_def)

lemma created_skipped:
  assumes "Annotations (Config m) = None \<or>
           (\<exists>a. Annotations (Config m) = Some a \<and>
                (a AnnotationCreated = None \<or>
                 (\<exists>created err. a AnnotationCreated = Some created \<and> time_Parse w created = Inl err)))"
  shows "RunInspect_created w m = []"
  using assms by (auto simp: RunInspect_created_def)

lemma report_no_call: "Call c r \<notin> set (snd (RunInspect_report w repo manifestDesc m))"
  by (simp add: RunInspect_report_def Let_def RunInspect_created_def rows_no_call
           split: option.splits sum.splits)

lemma report_no_created_print:
  assumes "RunInspect_created w m = []"
    and "Print s \<in> set (snd (RunInspect_report w repo manifestDesc m))"
  shows "\<not> prefix ''Created:'' s"
  using assms by (auto simp: RunInspect_report_def Let_def rows_no_print nl_def split: if_splits)

lemma example_inspect_local:
  "SetupRepository (inspect_oci example_inspect)
     (inspect_Reference \<lparr>inspect_Reference = ''localhost:5001/stack:v1''\<rparr>) =
     Inr \<lparr>repo_Reference = \<lparr>Registry = ''localhost:5001'', Repository = ''stack'', ref_Reference = ''v1''\<rparr>,
          PlainHTTP = True, Client = Some \<lparr>Credential = DockerCredentials ''config.json''\<rparr>\<rparr>"
  "repo_FetchReference example_inspect
     \<lparr>repo_Reference = \<lparr>Registry = ''localhost:5001'', Repository = ''stack'', ref_Reference = ''v1''\<rparr>,
      PlainHTTP = True, Client = Some \<lparr>Credential = DockerCredentials ''config.json''\<rparr>\<rparr>
     (inspect_Reference \<lparr>inspect_Reference = ''localhost:5001/stack:v1''\<rparr>) =
     Inr (\<lparr>MediaType = ''application/vnd.oci.image.manifest.v1+json'',
            Digest = ''sha256:manifest'', Size = 2, Annotations = None\<rparr>,
          Reader (Inr ''localhost:5001/stack:v1''))"
  "io_ReadAll (Reader (Inr ''localhost:5001/stack:v1'')) = Inr ''localhost:5001/stack:v1''"
  "json_Unmarshal example_inspect ''localhost:5001/stack:v1'' = Inr example_manifest_empty"
  by (simp_all add: example_inspect_def example_setup_local)

lemma example_inspect_remote:
  "SetupRepository (inspect_oci example_inspect)
     (inspect_Reference \<lparr>inspect_Reference = ''ghcr.io/acme/stack:v1''\<rparr>) =
     Inr \<lparr>repo_Reference = \<lparr>Registry = ''ghcr.io'', Repository = ''acme/stack'', ref_Reference = ''v1''\<rparr>,
          PlainHTTP = False, Client = Some \<lparr>Credential = DockerCredentials ''config.json''\<rparr>\<rparr>"
  "repo_FetchReference example_inspect
     \<lparr>repo_Reference = \<lparr>Registry = ''ghcr.io'', Repository = ''acme/stack'', ref_Reference = ''v1''\<rparr>,
      PlainHTTP = False, Client = Some \<lparr>Credential = DockerCredentials ''config.json''\<rparr>\<rparr>
     (inspect_Reference \<lparr>inspect_Reference = ''ghcr.io/acme/stack:v1''\<rparr>) =
     Inr (\<lparr>MediaType = ''application/vnd.oci.image.manifest.v1+json'',
            Digest = ''sha256:manifest'', Size = 2, Annotations = None\<rparr>,
          Reader (Inr ''ghcr.io/acme/stack:v1''))"
  "io_ReadAll (Reader (Inr ''ghcr.io/acme/stack:v1'')) = Inr ''ghcr.io/acme/stack:v1''"
  "json_Unmarshal example_inspect ''ghcr.io/acme/stack:v1'' = Inr example_manifest"
  by (simp_all add: example_inspect_def example_setup_remote)

text \<open>
  Claim C8. When the manifest is fetched, read and parsed and has no layers, \<^verbatim>\<open>RunInspect\<close>
  prints that no ResourceGraphDefinitions were found in the artifact, writes no table, and
  returns \<^verbatim>\<open>nil\<close>.
\<close>

theorem inspect_zero_layers:
  assumes "SetupRepository (inspect_oci w) (inspect_Reference opts) = Inr repo"
    and "repo_FetchReference w repo (inspect_Reference opts) = Inr (manifestDesc, rc)"
    and "io_ReadAll rc = Inr manifestBytes"
    and "json_Unmarshal w manifestBytes = Inr m"
    and "length (Layers m) = 0"
  shows "fst (RunInspect w opts) = None \<and>
         Print (nl @ ''No ResourceGraphDefinitions found in artifact'' @ nl)
           \<in> set (snd (RunInspect w opts)) \<and>
         tab_writes (snd (RunInspect w opts)) = []"
proof -
  from assms(5) have "snd (RunInspect_report w repo manifestDesc m) =
      [Print (''Artifact:  '' @ (if ref_Reference (repo_Reference repo) \<noteq> []
             then Repository (repo_Reference repo) @ '':'' @ ref_Reference (repo_Reference repo)
             else Repository (repo_Reference repo)) @ nl),
       Print (''Registry:  '' @ Host (repo_Reference repo) @ nl),
       Print (''Digest:    '' @ Digest manifestDesc @ nl)]
      @ RunInspect_created w m
      @ [Print (nl @ ''No ResourceGraphDefinitions found in artifact'' @ nl)]"
    by (simp add: RunInspect_report_def Let_def)
  then show ?thesis
    by (simp add: RunInspect_parsed [OF assms(1-4)] report_succeeds tab_writes_append
                  tab_writes_created)
qed

theorem inspect_zero_layers_witness:
  "length (Layers example_manifest_empty) = 0 \<and>
   json_Unmarshal example_inspect ''localhost:5001/stack:v1'' = Inr example_manifest_empty \<and>
   fst (RunInspect example_inspect \<lparr>inspect_Reference = ''localhost:5001/stack:v1''\<rparr>) = None \<and>
   Print (nl @ ''No ResourceGraphDefinitions found in artifact'' @ nl)
     \<in> set (snd (RunInspect example_inspect \<lparr>inspect_Reference = ''localhost:5001/stack:v1''\<rparr>))"
proof -
  have z: "length (Layers example_manifest_empty) = 0"
    by (simp add: example_manifest_empty_def)
  from inspect_zero_layers [OF example_inspect_local z] z example_inspect_local(4)
  show ?thesis by simp
qed

text \<open>
  Claim C9. When the manifest is fetched, read and parsed, and its config has no
  annotations, or no creation annotation, or one that \<^verbatim>\<open>time.Parse\<close> rejects, \<^verbatim>\<open>RunInspect\<close>
  returns \<^verbatim>\<open>nil\<close>, prints no line that starts with \<^verbatim>\<open>Created:\<close>, and none of its calls
  returned an error.
\<close>

theorem inspect_created_optional:
  assumes "SetupRepository (inspect_oci w) (inspect_Reference opts) = Inr repo"
    and "repo_FetchReference w repo (inspect_Reference opts) = Inr (manifestDesc, rc)"
    and "io_ReadAll rc = Inr manifestBytes"
    and "json_Unmarshal w manifestBytes = Inr m"
    and "Annotations (Config m) = None \<or>
         (\<exists>a. Annotations (Config m) = Some a \<and>
              (a AnnotationCreated = None \<or>
               (\<exists>created err. a AnnotationCreated = Some created \<and> time_Parse w created = Inl err)))"
  shows "fst (RunInspect w opts) = None \<and>
         (\<forall>s. Print s \<in> set (snd (RunInspect w opts)) \<longrightarrow> \<not> prefix ''Created:'' s) \<and>
         (\<forall>c err. Call c (Some err) \<notin> set (snd (RunInspect w opts)))"
proof -
  have skipped: "RunInspect_created w m = []"
    using created_skipped [OF assms(5)] .
  have "\<not> prefix ''Created:'' s" if "Print s \<in> set (snd (RunInspect w opts))" for s
  proof -
    from that have "Print s \<in> set (snd (RunInspect_report w repo manifestDesc m))"
      by (simp add: RunInspect_parsed [OF assms(1-4)] split: if_splits)
    with skipped show ?thesis by (rule report_no_created_print)
  qed
  moreover have "Call c (Some err) \<notin> set (snd (RunInspect w opts))" for c err
    by (simp add: RunInspect_parsed [OF assms(1-4)] report_no_call)
  moreover have "fst (RunInspect w opts) = None"
    by (simp add: RunInspect_parsed [OF assms(1-4)] report_succeeds)
  ultimately show ?thesis by blast
qed

theorem inspect_created_optional_witness:
  "Annotations (Config example_manifest) = Some [AnnotationCreated \<mapsto> ''yesterday''] \<and>
   time_Parse example_inspect ''yesterday'' = Inl (ErrExternal ''cannot parse as RFC3339'') \<and>
   fst (RunInspect example_inspect \<lparr>inspect_Reference = ''ghcr.io/acme/stack:v1''\<rparr>) = None \<and>
   Print (''Created:   yesterday'' @ nl)
     \<notin> set (snd (RunInspect example_inspect \<lparr>inspect_Reference = ''ghcr.io/acme/stack:v1''\<rparr>))"
proof -
  have a: "Annotations (Config example_manifest) = Some [AnnotationCreated \<mapsto> ''yesterday'']"
    by (simp add: example_manifest_def)
  have p: "time_Parse example_inspect ''yesterday'' = Inl (ErrExternal ''cannot parse as RFC3339'')"
    by (simp add: example_inspect_def)
  have h: "Annotations (Config example_manifest) = None \<or>
         (\<exists>a. Annotations (Config example_manifest) = Some a \<and>
              (a AnnotationCreated = None \<or>
               (\<exists>created err. a AnnotationCreated = Some created \<and>
                  time_Parse example_inspect created = Inl err)))"
    using a p by simp
  have pre: "prefix ''Created:'' (''Created:   yesterday'' @ nl)" by simp
  from inspect_created_optional [OF example_inspect_remote h] pre a p
  show ?thesis by blast
qed

text \<open>
  Claim C10. When the manifest is fetched, read and parsed, the table has the header and
  one row for each layer, and the row of a layer without annotations, or without a title
  annotation, is the name \<^verbatim>\<open>unknown\<close>, a tab, the digest of the layer and a newline;
  \<^verbatim>\<open>RunInspect\<close> returns \<^verbatim>\<open>nil\<close>.
\<close>

theorem inspect_untitled_layer_unknown:
  assumes "SetupRepository (inspect_oci w) (inspect_Reference opts) = Inr repo"
    and "repo_FetchReference w repo (inspect_Reference opts) = Inr (manifestDesc, rc)"
    and "io_ReadAll rc = Inr manifestBytes"
    and "json_Unmarshal w manifestBytes = Inr m"
    and "i < length (Layers m)"
    and "Annotations (Layers m ! i) = None \<or>
         (\<exists>a. Annotations (Layers m ! i) = Some a \<and> a AnnotationTitle = None)"
  shows "fst (RunInspect w opts) = None \<and>
         length (tab_writes (snd (RunInspect w opts))) = Suc (length (Layers m)) \<and>
         tab_writes (snd (RunInspect w opts)) ! Suc i =
           ''unknown'' @ tab @ Digest (Layers m ! i) @ nl"
proof -
  from assms(5) have ne: "length (Layers m) \<noteq> 0" by auto
  have tw: "tab_writes (snd (RunInspect w opts)) =
              (''Name'' @ tab @ ''Digest'' @ nl) # tab_writes (RunInspect_rows (Layers m))"
    using ne
    by (simp add: RunInspect_parsed [OF assms(1-4)] RunInspect_report_def Let_def
                  tab_writes_append tab_writes_created)
  have "fst (RunInspect w opts) = None"
    by (simp add: RunInspect_parsed [OF assms(1-4)] report_succeeds)
  moreover have "length (tab_writes (snd (RunInspect w opts))) = Suc (length (Layers m))"
    by (simp add: tw rows_length)
  moreover have "tab_writes (snd (RunInspect w opts)) ! Suc i =
                   ''unknown'' @ tab @ Digest (Layers m ! i) @ nl"
    using rows_nth_unknown [OF assms(5,6)] by (simp add: tw)
  ultimately show ?thesis by blast
qed

theorem inspect_untitled_layer_unknown_witness:
  "Annotations (Layers example_manifest ! 1) = None \<and>
   fst (RunInspect example_inspect \<lparr>inspect_Reference = ''ghcr.io/acme/stack:v1''\<rparr>) = None \<and>
   tab_writes (snd (RunInspect example_inspect \<lparr>inspect_Reference = ''ghcr.io/acme/stack:v1''\<rparr>)) ! 2 =
     ''unknown'' @ tab @ ''sha256:bb'' @ nl"
proof -
  have i: "1 < length (Layers example_manifest)"
    by (simp add: example_manifest_def)
  have a: "Annotations (Layers example_manifest ! 1) = None"
    by (simp add: example_manifest_def)
  then have h: "Annotations (Layers example_manifest ! 1) = None \<or>
         (\<exists>a. Annotations (Layers example_manifest ! 1) = Some a \<and> a AnnotationTitle = None)"
    by simp
  have d: "Digest (Layers example_manifest ! 1) = ''sha256:bb''"
    by (simp add: example_manifest_def)
  from inspect_untitled_layer_unknown [OF example_inspect_remote i h] a d
  show ?thesis by (simp add: numeral_2_eq_2)
qed

section \<open>Properties of \<^verbatim>\<open>RunPush\<close>\<close>

lemma staged_append: "staged (xs @ ys) = staged xs @ staged ys"
  by (induction xs rule: staged.induct) simp_all

lemma staged_none: "\<forall>ev \<in> set tr. \<not> is_stage ev \<Longrightarrow> staged tr = []"
  by (induction tr rule: staged.induct) simp_all

lemma stage_failed_is_stage: "stage_failed ev \<Longrightarrow> is_stage ev"
  by (cases ev rule: stage_failed.cases) simp_all

text \<open>The staging loop only stages: it emits no call that packs, tags, connects or pushes.\<close>

lemma stage_events:
  "RunPush_stage w store files layers = (r, tr) \<Longrightarrow>
     \<forall>ev \<in> set tr. \<not> is_pack ev \<and> \<not> is_tag ev \<and> \<not> is_setup ev \<and> \<not> is_push ev"
proof (induction files arbitrary: store layers r tr)
  case Nil
  then show ?case by simp
next
  case (Cons f files)
  show ?case
  proof (cases "store_Add w store (Base f) LayerMediaType f")
    case (Inl err)
    with Cons.prems show ?thesis by auto
  next
    case (Inr p)
    obtain desc store' where p: "p = (desc, store')" by (cases p)
    obtain r' tr' where rec: "RunPush_stage w store' files (layers @ [desc]) = (r', tr')"
      by (cases "RunPush_stage w store' files (layers @ [desc])")
    from Cons.IH [OF rec] Cons.prems Inr p rec show ?thesis by auto
  qed
qed

text \<open>When the loop succeeds, every file was staged, in order, and no staging failed.\<close>

lemma stage_ok:
  "RunPush_stage w store files layers = (Inr x, tr) \<Longrightarrow>
     staged tr = files \<and> (\<forall>ev \<in> set tr. \<not> stage_failed ev)"
proof (induction files arbitrary: store layers tr)
  case Nil
  then show ?case by simp
next
  case (Cons f files)
  show ?case
  proof (cases "store_Add w store (Base f) LayerMediaType f")
    case (Inl err)
    with Cons.prems show ?thesis by simp
  next
    case (Inr p)
    obtain desc store' where p: "p = (desc, store')" by (cases p)
    obtain r' tr' where rec: "RunPush_stage w store' files (layers @ [desc]) = (r', tr')"
      by (cases "RunPush_stage w store' files (layers @ [desc])")
    with Cons.prems Inr p have "r' = Inr x" by simp
    with rec have "staged tr' = files \<and> (\<forall>ev \<in> set tr'. \<not> stage_failed ev)"
      using Cons.IH by blast
    with Cons.prems Inr p rec show ?thesis by auto
  qed
qed

text \<open>
  When the files before \<open>f\<close> are staged and staging \<open>f\<close> fails, the loop stops with the
  error of \<open>f\<close>, whatever follows \<open>f\<close>.
\<close>

lemma stage_fails_at:
  "RunPush_stage w store pre layers = (Inr (layers', store'), tr) \<Longrightarrow>
   store_Add w store' (Base f) LayerMediaType f = Inl err \<Longrightarrow>
   RunPush_stage w store (pre @ f # post) layers =
     (Inl (ErrWrap (''failed to add '' @ f @ '' to store: '') err),
      tr @ [Call (CallStoreAdd (Base f) LayerMediaType f) (Some err)])"
proof (induction pre arbitrary: store layers tr)
  case Nil
  then show ?case by simp
next
  case (Cons g pre)
  show ?case
  proof (cases "store_Add w store (Base g) LayerMediaType g")
    case (Inl e)
    with Cons.prems show ?thesis by simp
  next
    case (Inr p)
    obtain desc store1 where p: "p = (desc, store1)" by (cases p)
    obtain r' tr' where rec: "RunPush_stage w store1 pre (layers @ [desc]) = (r', tr')"
      by (cases "RunPush_stage w store1 pre (layers @ [desc])")
    with Cons.prems(1) Inr p have r': "r' = Inr (layers', store')"
      and tr: "tr = [Call (CallStoreAdd (Base g) LayerMediaType g) None,
                     Log Debug ''Added file to artifact''] @ tr'"
      by simp_all
    from rec r' have "RunPush_stage w store1 pre (layers @ [desc]) = (Inr (layers', store'), tr')"
      by simp
    from Cons.IH [OF this Cons.prems(2)] Inr p tr show ?thesis by simp
  qed
qed

text \<open>Packing, tagging and pushing stage nothing, and tag with the reference of the options.\<close>

lemma publish_events:
  assumes "RunPush_publish w opts allFiles layers store = (res, tr)"
  shows "(\<forall>ev \<in> set tr. \<not> is_stage ev) \<and>
         (\<forall>desc reference r. Call (CallStoreTag desc reference) r \<in> set tr \<longrightarrow> reference = Reference opts)"
proof (cases "oras_PackManifest w store ArtifactType layers")
  case (Inl err)
  with assms show ?thesis by (auto simp: RunPush_publish_def)
next
  case pack: (Inr p)
  obtain manifestDesc store1 where p: "p = (manifestDesc, store1)" by (cases p)
  show ?thesis
  proof (cases "store_Tag w store1 manifestDesc (Reference opts)")
    case (Inl err)
    with assms pack p show ?thesis by (auto simp: RunPush_publish_def)
  next
    case tag: (Inr store2)
    show ?thesis
    proof (cases "SetupRepository (push_oci w) (Reference opts)")
      case (Inl err)
      with assms pack p tag show ?thesis by (auto simp: RunPush_publish_def)
    next
      case conn: (Inr repo)
      show ?thesis
      proof (cases "oras_Copy w store2 (Reference opts) repo (Reference opts)")
        case (Inl err)
        with assms pack p tag conn show ?thesis
          by (cases "PlainHTTP repo") (auto simp: RunPush_publish_def)
      next
        case (Inr d)
        with assms pack p tag conn show ?thesis
          by (cases "PlainHTTP repo") (auto simp: RunPush_publish_def)
      qed
    qed
  qed
qed

text \<open>A tag event of a trace that starts with events that are no tags lies in the rest.\<close>

lemma split_at_tag:
  assumes "a @ b = pre @ ev # post" and "is_tag ev" and "\<forall>e \<in> set a. \<not> is_tag e"
  shows "\<exists>b1. pre = a @ b1 \<and> b = b1 @ ev # post"
  using assms
proof (induction a arbitrary: pre)
  case Nil
  then show ?case by simp
next
  case (Cons x a)
  show ?case
  proof (cases pre)
    case Nil
    with Cons.prems show ?thesis by auto
  next
    case (Cons y pre')
    with Cons.prems have "a @ b = pre' @ ev # post" and "x = y" and "\<forall>e \<in> set a. \<not> is_tag e"
      by simp_all
    from Cons.IH [OF this(1) Cons.prems(2) this(3)] Cons \<open>x = y\<close> show ?thesis by auto
  qed
qed

text \<open>The run of push once the files are collected and the store is created.\<close>

lemma RunPush_stage_failed:
  assumes "Filenames opts \<noteq> []"
    and "RunPush_collect (push_os w) (Filenames opts) [] = Inr allFiles" and "allFiles \<noteq> []"
    and "file_New w = Inr store"
    and "RunPush_stage w store allFiles [] = (Inl err, tr1)"
  shows "RunPush w opts =
           (Some err, [Log Info ''Preparing to push RGD stack'', Call CallFileNew None] @ tr1
                      @ [Call CallStoreClose None])"
  using assms by (simp add: RunPush_def)

lemma RunPush_staged:
  assumes "Filenames opts \<noteq> []"
    and "RunPush_collect (push_os w) (Filenames opts) [] = Inr allFiles" and "allFiles \<noteq> []"
    and "file_New w = Inr store"
    and "RunPush_stage w store allFiles [] = (Inr (layers, store1), tr1)"
    and "RunPush_publish w opts allFiles layers store1 = (res, tr2)"
  shows "RunPush w opts =
           (res, [Log Info ''Preparing to push RGD stack'', Call CallFileNew None] @ tr1 @ tr2
                 @ [Call CallStoreClose None])"
  using assms by (simp add: RunPush_def)

lemma RunPush_no_store:
  assumes "snd (RunPush w opts) = pre @ ev # post" and "is_tag ev"
  shows "Filenames opts \<noteq> [] \<and>
         (\<exists>allFiles store. RunPush_collect (push_os w) (Filenames opts) [] = Inr allFiles \<and>
            allFiles \<noteq> [] \<and> file_New w = Inr store)"
proof -
  have "\<not> is_tag e" if "e \<in> set (snd (RunPush w opts))"
       and "Filenames opts = [] \<or> (\<forall>allFiles. RunPush_collect (push_os w) (Filenames opts) [] = Inr allFiles \<longrightarrow> allFiles = []) \<or> (\<forall>store. file_New w \<noteq> Inr store)" for e
    using that by (cases "RunPush_collect (push_os w) (Filenames opts) []"; cases "file_New w")
                  (auto simp: RunPush_def split: if_splits)
  moreover from assms(1) have "ev \<in> set (snd (RunPush w opts))" by simp
  ultimately show ?thesis using assms(2) by blast
qed

lemma is_tag_cases: "is_tag ev \<Longrightarrow> \<exists>desc reference r. ev = Call (CallStoreTag desc reference) r"
  by (cases ev rule: is_tag.cases) simp_all

lemma push_staging_failure:
  assumes collect: "RunPush_collect (push_os w) (Filenames opts) [] = Inr allFiles"
    and new: "file_New w = Inr store"
    and files: "allFiles = pre @ f # post"
    and before: "RunPush_stage w store pre [] = (Inr (layers, store'), tr)"
    and fails: "store_Add w store' (Base f) LayerMediaType f = Inl err"
  shows "fst (RunPush w opts) = Some (ErrWrap (''failed to add '' @ f @ '' to store: '') err) \<and>
         staged (snd (RunPush w opts)) = pre \<and>
         (\<forall>ev \<in> set (snd (RunPush w opts)).
            \<not> is_pack ev \<and> \<not> is_tag ev \<and> \<not> is_setup ev \<and> \<not> is_push ev)"
proof -
  from files have ne: "allFiles \<noteq> []" by simp
  with collect have fne: "Filenames opts \<noteq> []" by auto
  from stage_fails_at [OF before fails, of post] files
  have st: "RunPush_stage w store allFiles [] =
              (Inl (ErrWrap (''failed to add '' @ f @ '' to store: '') err),
               tr @ [Call (CallStoreAdd (Base f) LayerMediaType f) (Some err)])"
    by simp
  note run = RunPush_stage_failed [OF fne collect ne new st]
  from stage_ok [OF before] have sp: "staged tr = pre" by simp
  from stage_events [OF before]
  have ev: "\<forall>ev \<in> set tr. \<not> is_pack ev \<and> \<not> is_tag ev \<and> \<not> is_setup ev \<and> \<not> is_push ev" .
  have "fst (RunPush w opts) = Some (ErrWrap (''failed to add '' @ f @ '' to store: '') err)"
    by (simp add: run)
  moreover have "staged (snd (RunPush w opts)) = pre"
    by (simp add: run staged_append sp)
  moreover have "\<forall>ev \<in> set (snd (RunPush w opts)).
            \<not> is_pack ev \<and> \<not> is_tag ev \<and> \<not> is_setup ev \<and> \<not> is_push ev"
    using ev by (simp add: run)
  ultimately show ?thesis by blast
qed

lemma push_tag_after_staging:
  assumes collect: "RunPush_collect (push_os w) (Filenames opts) [] = Inr allFiles"
    and tr: "snd (RunPush w opts) = pre @ ev # post" and tag: "is_tag ev"
  shows "(\<exists>desc r. ev = Call (CallStoreTag desc (Reference opts)) r) \<and>
         staged pre = allFiles \<and>
         (\<forall>e \<in> set (snd (RunPush w opts)). \<not> stage_failed e)"
proof -
  from RunPush_no_store [OF tr tag] collect obtain store
    where fne: "Filenames opts \<noteq> []" and ne: "allFiles \<noteq> []" and new: "file_New w = Inr store"
    by auto
  obtain r1 tr1 where st: "RunPush_stage w store allFiles [] = (r1, tr1)"
    by (cases "RunPush_stage w store allFiles []")
  note se = stage_events [OF st]
  show ?thesis
  proof (cases r1)
    case (Inl err)
    with st have "RunPush_stage w store allFiles [] = (Inl err, tr1)" by simp
    note run = RunPush_stage_failed [OF fne collect ne new this]
    from tr have "ev \<in> set (snd (RunPush w opts))" by simp
    with se tag show ?thesis by (auto simp: run)
  next
    case (Inr x)
    obtain layers store1 where x: "x = (layers, store1)" by (cases x)
    obtain res tr2 where pub: "RunPush_publish w opts allFiles layers store1 = (res, tr2)"
      by (cases "RunPush_publish w opts allFiles layers store1")
    from st Inr x have st': "RunPush_stage w store allFiles [] = (Inr (layers, store1), tr1)"
      by simp
    note run = RunPush_staged [OF fne collect ne new st' pub]
    note ok = stage_ok [OF st']
    note pe = publish_events [OF pub]
    let ?a = "[Log Info ''Preparing to push RGD stack'', Call CallFileNew None] @ tr1"
    let ?b = "tr2 @ [Call CallStoreClose None]"
    from tr have eq: "?a @ ?b = pre @ ev # post" by (simp add: run)
    have notag: "\<forall>e \<in> set ?a. \<not> is_tag e" using se by simp
    from split_at_tag [OF eq tag notag] obtain b1
      where pre: "pre = ?a @ b1" and b: "?b = b1 @ ev # post" by blast
    have nostage_b: "\<forall>e \<in> set ?b. \<not> is_stage e" using pe by simp
    have sb: "set ?b = set b1 \<union> {ev} \<union> set post"
      by (simp only: b) auto
    with nostage_b have "\<forall>e \<in> set b1. \<not> is_stage e" by blast
    then have "staged b1 = []" by (rule staged_none)
    with ok pre have sp: "staged pre = allFiles" by (simp add: staged_append)
    from sb have "ev \<in> set ?b" by blast
    with tag have "ev \<in> set tr2" by auto
    with pe is_tag_cases [OF tag] have shape: "\<exists>desc r. ev = Call (CallStoreTag desc (Reference opts)) r"
      by blast
    have "\<not> stage_failed e" if "e \<in> set (snd (RunPush w opts))" for e
    proof -
      from that have "e \<in> set ?a \<or> e \<in> set ?b" by (auto simp: run)
      then show ?thesis
      proof
        assume "e \<in> set ?a"
        with ok show ?thesis by auto
      next
        assume "e \<in> set ?b"
        with nostage_b stage_failed_is_stage show ?thesis by blast
      qed
    qed
    with sp shape show ?thesis by blast
  qed
qed

lemma example_collect_two:
  "RunPush_collect (push_os example_push) [''a.yaml'', ''notes.txt''] [] = Inr [''a.yaml'', ''notes.txt'']"
  by code_simp

lemma example_stage_first:
  "RunPush_stage example_push [] [''a.yaml''] [] =
     (Inr ([\<lparr>MediaType = LayerMediaType, Digest = ''sha256:a.yaml'', Size = 1,
               Annotations = Some [AnnotationTitle \<mapsto> ''a.yaml'']\<rparr>], [''a.yaml'']),
      [Call (CallStoreAdd ''a.yaml'' LayerMediaType ''a.yaml'') None,
       Log Debug ''Added file to artifact''])"
  by (simp add: example_push_def Base_def)

lemma example_stage_second:
  "store_Add example_push [''a.yaml''] (Base ''notes.txt'') LayerMediaType ''notes.txt'' =
     Inl (ErrExternal ''open notes.txt: permission denied'')"
  by (simp add: example_push_def Base_def)

lemma example_collect_rgds:
  "RunPush_collect (push_os example_push) [''rgds''] [] = Inr [''rgds/net/vpc.yml'', ''rgds/stack.yaml'']"
  by code_simp

lemma example_push_trace:
  "snd (RunPush example_push \<lparr>Filenames = [''rgds''], Reference = ''localhost:5001/stack:v1''\<rparr>) =
     [Log Info ''Preparing to push RGD stack'', Call CallFileNew None,
      Call (CallStoreAdd ''vpc.yml'' LayerMediaType ''rgds/net/vpc.yml'') None,
      Log Debug ''Added file to artifact'',
      Call (CallStoreAdd ''stack.yaml'' LayerMediaType ''rgds/stack.yaml'') None,
      Log Debug ''Added file to artifact'',
      Call (CallPackManifest ArtifactType
        [\<lparr>MediaType = LayerMediaType, Digest = ''sha256:vpc.yml'', Size = 1,
           Annotations = Some [AnnotationTitle \<mapsto> ''vpc.yml'']\<rparr>,
         \<lparr>MediaType = LayerMediaType, Digest = ''sha256:stack.yaml'', Size = 1,
           Annotations = Some [AnnotationTitle \<mapsto> ''stack.yaml'']\<rparr>]) None]
     @ Call (CallStoreTag \<lparr>MediaType = ''application/vnd.oci.image.manifest.v1+json'',
                            Digest = ''sha256:manifest'', Size = 2, Annotations = None\<rparr>
              ''localhost:5001/stack:v1'') None
     # [Call (CallSetupRepository ''localhost:5001/stack:v1'') None,
        Log Debug ''Using plain HTTP for local registry'',
        Log Info ''Pushing artifact to registry'',
        Call (CallCopy ''localhost:5001/stack:v1'' ''localhost:5001/stack:v1'') None,
        Print (''Successfully pushed 2 RGD file(s) to localhost:5001/stack:v1'' @ nl),
        Print (''Digest: sha256:manifest'' @ nl),
        Call CallStoreClose None]"
proof -
  have st: "RunPush_stage example_push [] [''rgds/net/vpc.yml'', ''rgds/stack.yaml''] [] =
     (Inr ([\<lparr>MediaType = LayerMediaType, Digest = ''sha256:vpc.yml'', Size = 1,
           Annotations = Some [AnnotationTitle \<mapsto> ''vpc.yml'']\<rparr>,
         \<lparr>MediaType = LayerMediaType, Digest = ''sha256:stack.yaml'', Size = 1,
           Annotations = Some [AnnotationTitle \<mapsto> ''stack.yaml'']\<rparr>], [''vpc.yml'', ''stack.yaml'']),
      [Call (CallStoreAdd ''vpc.yml'' LayerMediaType ''rgds/net/vpc.yml'') None,
      Log Debug ''Added file to artifact'',
      Call (CallStoreAdd ''stack.yaml'' LayerMediaType ''rgds/stack.yaml'') None,
      Log Debug ''Added file to artifact''])"
    by (simp add: example_push_def Base_def)
  have two: "fmt_d (Suc (Suc 0)) = ''2''" by code_simp
  have pub: "RunPush_publish example_push \<lparr>Filenames = [''rgds''], Reference = ''localhost:5001/stack:v1''\<rparr>
       [''rgds/net/vpc.yml'', ''rgds/stack.yaml'']
       [\<lparr>MediaType = LayerMediaType, Digest = ''sha256:vpc.yml'', Size = 1,
           Annotations = Some [AnnotationTitle \<mapsto> ''vpc.yml'']\<rparr>,
         \<lparr>MediaType = LayerMediaType, Digest = ''sha256:stack.yaml'', Size = 1,
           Annotations = Some [AnnotationTitle \<mapsto> ''stack.yaml'']\<rparr>] [''vpc.yml'', ''stack.yaml''] =
     (None, [Call (CallPackManifest ArtifactType
        [\<lparr>MediaType = LayerMediaType, Digest = ''sha256:vpc.yml'', Size = 1,
           Annotations = Some [AnnotationTitle \<mapsto> ''vpc.yml'']\<rparr>,
         \<lparr>MediaType = LayerMediaType, Digest = ''sha256:stack.yaml'', Size = 1,
           Annotations = Some [AnnotationTitle \<mapsto> ''stack.yaml'']\<rparr>]) None,
      Call (CallStoreTag \<lparr>MediaType = ''application/vnd.oci.image.manifest.v1+json'',
                            Digest = ''sha256:manifest'', Size = 2, Annotations = None\<rparr>
              ''localhost:5001/stack:v1'') None,
      Call (CallSetupRepository ''localhost:5001/stack:v1'') None,
        Log Debug ''Using plain HTTP for local registry'',
        Log Info ''Pushing artifact to registry'',
        Call (CallCopy ''localhost:5001/stack:v1'' ''localhost:5001/stack:v1'') None,
        Print (''Successfully pushed 2 RGD file(s) to localhost:5001/stack:v1'' @ nl),
        Print (''Digest: sha256:manifest'' @ nl)])"
    unfolding RunPush_publish_def
    by (simp add: example_push_def example_setup_local two del: fmt_d.simps)
  have c: "RunPush_collect (push_os example_push)
            (Filenames \<lparr>Filenames = [''rgds''], Reference = ''localhost:5001/stack:v1''\<rparr>) [] =
           Inr [''rgds/net/vpc.yml'', ''rgds/stack.yaml'']"
    using example_collect_rgds by simp
  have n: "file_New example_push = Inr []" by (simp add: example_push_def)
  have fne: "Filenames \<lparr>Filenames = [''rgds''], Reference = ''localhost:5001/stack:v1''\<rparr> \<noteq> []"
    by simp
  have ne: "[''rgds/net/vpc.yml'', ''rgds/stack.yaml''] \<noteq> []" by simp
  show ?thesis
    by (simp add: RunPush_staged [OF fne c ne n st pub])
qed

text \<open>
  Claim C1. Let the collection yield \<open>allFiles\<close>. If the files before some file \<open>f\<close> of
  that list are staged and staging \<open>f\<close> fails, \<^verbatim>\<open>RunPush\<close> returns the error of \<open>f\<close>; only the
  files before \<open>f\<close> were staged, and the run contains no call that packs a manifest, tags,
  sets the repository up or pushes. And wherever a run contains a tagging call, that call
  tags with the reference of the options, the files staged before it are exactly
  \<open>allFiles\<close>, and no staging of the run failed.
\<close>

theorem push_all_or_nothing:
  assumes "RunPush_collect (push_os w) (Filenames opts) [] = Inr allFiles"
  shows "(\<forall>store pre f post layers store' tr err.
            file_New w = Inr store \<and> allFiles = pre @ f # post \<and>
            RunPush_stage w store pre [] = (Inr (layers, store'), tr) \<and>
            store_Add w store' (Base f) LayerMediaType f = Inl err
            \<longrightarrow> fst (RunPush w opts) = Some (ErrWrap (''failed to add '' @ f @ '' to store: '') err) \<and>
                staged (snd (RunPush w opts)) = pre \<and>
                (\<forall>ev \<in> set (snd (RunPush w opts)).
                   \<not> is_pack ev \<and> \<not> is_tag ev \<and> \<not> is_setup ev \<and> \<not> is_push ev)) \<and>
         (\<forall>pre ev post.
            snd (RunPush w opts) = pre @ ev # post \<and> is_tag ev
            \<longrightarrow> (\<exists>desc r. ev = Call (CallStoreTag desc (Reference opts)) r) \<and>
                staged pre = allFiles \<and>
                (\<forall>e \<in> set (snd (RunPush w opts)). \<not> stage_failed e))"
proof (intro conjI allI impI)
  fix store pre f post layers store' tr err
  assume h: "file_New w = Inr store \<and> allFiles = pre @ f # post \<and>
             RunPush_stage w store pre [] = (Inr (layers, store'), tr) \<and>
             store_Add w store' (Base f) LayerMediaType f = Inl err"
  then have h1: "file_New w = Inr store" and h2: "allFiles = pre @ f # post"
    and h3: "RunPush_stage w store pre [] = (Inr (layers, store'), tr)"
    and h4: "store_Add w store' (Base f) LayerMediaType f = Inl err"
    by simp_all
  note r = push_staging_failure [OF assms h1 h2 h3 h4]
  from r show "fst (RunPush w opts) = Some (ErrWrap (''failed to add '' @ f @ '' to store: '') err)"
    by (rule conjunct1)
  from r show "staged (snd (RunPush w opts)) = pre"
    by (elim conjE)
  from r show "\<forall>ev \<in> set (snd (RunPush w opts)).
                 \<not> is_pack ev \<and> \<not> is_tag ev \<and> \<not> is_setup ev \<and> \<not> is_push ev"
    by (elim conjE)
next
  fix pre ev post
  assume h: "snd (RunPush w opts) = pre @ ev # post \<and> is_tag ev"
  then have h1: "snd (RunPush w opts) = pre @ ev # post" and h2: "is_tag ev"
    by simp_all
  note r = push_tag_after_staging [OF assms h1 h2]
  from r show "\<exists>desc r. ev = Call (CallStoreTag desc (Reference opts)) r"
    by (rule conjunct1)
  from r show "staged pre = allFiles"
    by (elim conjE)
  from r show "\<forall>e \<in> set (snd (RunPush w opts)). \<not> stage_failed e"
    by (elim conjE)
qed

theorem push_all_or_nothing_witness:
  "RunPush_collect (push_os example_push) [''a.yaml'', ''notes.txt''] [] = Inr [''a.yaml'', ''notes.txt''] \<and>
   store_Add example_push [''a.yaml''] (Base ''notes.txt'') LayerMediaType ''notes.txt'' =
     Inl (ErrExternal ''open notes.txt: permission denied'') \<and>
   fst (RunPush example_push \<lparr>Filenames = [''a.yaml'', ''notes.txt''], Reference = ''ghcr.io/acme/stack:v1''\<rparr>) =
     Some (ErrWrap ''failed to add notes.txt to store: '' (ErrExternal ''open notes.txt: permission denied'')) \<and>
   staged (snd (RunPush example_push \<lparr>Filenames = [''a.yaml'', ''notes.txt''], Reference = ''ghcr.io/acme/stack:v1''\<rparr>)) =
     [''a.yaml''] \<and>
   filter (\<lambda>ev. is_pack ev \<or> is_tag ev \<or> is_setup ev \<or> is_push ev)
     (snd (RunPush example_push \<lparr>Filenames = [''a.yaml'', ''notes.txt''], Reference = ''ghcr.io/acme/stack:v1''\<rparr>)) = [] \<and>
   RunPush_collect (push_os example_push) [''rgds''] [] = Inr [''rgds/net/vpc.yml'', ''rgds/stack.yaml''] \<and>
   staged [Log Info ''Preparing to push RGD stack'', Call CallFileNew None,
      Call (CallStoreAdd ''vpc.yml'' LayerMediaType ''rgds/net/vpc.yml'') None,
      Log Debug ''Added file to artifact'',
      Call (CallStoreAdd ''stack.yaml'' LayerMediaType ''rgds/stack.yaml'') None,
      Log Debug ''Added file to artifact'',
      Call (CallPackManifest ArtifactType
        [\<lparr>MediaType = LayerMediaType, Digest = ''sha256:vpc.yml'', Size = 1,
           Annotations = Some [AnnotationTitle \<mapsto> ''vpc.yml'']\<rparr>,
         \<lparr>MediaType = LayerMediaType, Digest = ''sha256:stack.yaml'', Size = 1,
           Annotations = Some [AnnotationTitle \<mapsto> ''stack.yaml'']\<rparr>]) None]
     = [''rgds/net/vpc.yml'', ''rgds/stack.yaml'']"
proof -
  let ?opts = "\<lparr>Filenames = [''a.yaml'', ''notes.txt''], Reference = ''ghcr.io/acme/stack:v1''\<rparr>"
  have c: "RunPush_collect (push_os example_push) (Filenames ?opts) [] = Inr [''a.yaml'', ''notes.txt'']"
    using example_collect_two by simp
  have h: "file_New example_push = Inr [] \<and>
           [''a.yaml'', ''notes.txt''] = [''a.yaml''] @ ''notes.txt'' # [] \<and>
           RunPush_stage example_push [] [''a.yaml''] [] =
             (Inr ([\<lparr>MediaType = LayerMediaType, Digest = ''sha256:a.yaml'', Size = 1,
                       Annotations = Some [AnnotationTitle \<mapsto> ''a.yaml'']\<rparr>], [''a.yaml'']),
              [Call (CallStoreAdd ''a.yaml'' LayerMediaType ''a.yaml'') None,
               Log Debug ''Added file to artifact'']) \<and>
           store_Add example_push [''a.yaml''] (Base ''notes.txt'') LayerMediaType ''notes.txt'' =
             Inl (ErrExternal ''open notes.txt: permission denied'')"
    using example_stage_first example_stage_second by (simp add: example_push_def)
  note t = push_all_or_nothing [OF c, THEN conjunct1, rule_format, OF h]
  from t example_collect_two example_stage_second
  have first: "RunPush_collect (push_os example_push) [''a.yaml'', ''notes.txt''] [] =
       Inr [''a.yaml'', ''notes.txt''] \<and>
     store_Add example_push [''a.yaml''] (Base ''notes.txt'') LayerMediaType ''notes.txt'' =
       Inl (ErrExternal ''open notes.txt: permission denied'') \<and>
     fst (RunPush example_push ?opts) =
       Some (ErrWrap ''failed to add notes.txt to store: '' (ErrExternal ''open notes.txt: permission denied'')) \<and>
     staged (snd (RunPush example_push ?opts)) = [''a.yaml''] \<and>
     filter (\<lambda>ev. is_pack ev \<or> is_tag ev \<or> is_setup ev \<or> is_push ev)
       (snd (RunPush example_push ?opts)) = []"
    by (simp add: filter_empty_conv)
  let ?opts2 = "\<lparr>Filenames = [''rgds''], Reference = ''localhost:5001/stack:v1''\<rparr>"
  have c2: "RunPush_collect (push_os example_push) (Filenames ?opts2) [] =
             Inr [''rgds/net/vpc.yml'', ''rgds/stack.yaml'']"
    using example_collect_rgds by simp
  have g: "is_tag (Call (CallStoreTag \<lparr>MediaType = ''application/vnd.oci.image.manifest.v1+json'',
                            Digest = ''sha256:manifest'', Size = 2, Annotations = None\<rparr>
              ''localhost:5001/stack:v1'') None)" by simp
  note t2 = push_all_or_nothing [OF c2, THEN conjunct2, rule_format, OF conjI [OF example_push_trace g]]
  from t2 example_collect_rgds
  have second: "RunPush_collect (push_os example_push) [''rgds''] [] =
       Inr [''rgds/net/vpc.yml'', ''rgds/stack.yaml''] \<and>
     staged [Log Info ''Preparing to push RGD stack'', Call CallFileNew None,
      Call (CallStoreAdd ''vpc.yml'' LayerMediaType ''rgds/net/vpc.yml'') None,
      Log Debug ''Added file to artifact'',
      Call (CallStoreAdd ''stack.yaml'' LayerMediaType ''rgds/stack.yaml'') None,
      Log Debug ''Added file to artifact'',
      Call (CallPackManifest ArtifactType
        [\<lparr>MediaType = LayerMediaType, Digest = ''sha256:vpc.yml'', Size = 1,
           Annotations = Some [AnnotationTitle \<mapsto> ''vpc.yml'']\<rparr>,
         \<lparr>MediaType = LayerMediaType, Digest = ''sha256:stack.yaml'', Size = 1,
           Annotations = Some [AnnotationTitle \<mapsto> ''stack.yaml'']\<rparr>]) None]
     = [''rgds/net/vpc.yml'', ''rgds/stack.yaml'']"
    by blast
  from first second show ?thesis by (elim conjE) (intro conjI)
qed

lemma example_collect_docs: "RunPush_collect example_os [''docs''] [] = Inr []"
  by code_simp

text \<open>
  Claim C6. When the collection succeeds with an empty list, \<^verbatim>\<open>RunPush\<close> returns the error
  that there are no input files (``no YAML files found in specified paths'', or ``no files
  specified, use -f to provide RGD files'' when no path was given at all) and has performed
  no effect: no store was created, no repository set up, nothing copied.
\<close>

theorem push_no_input_files:
  assumes "RunPush_collect (push_os w) (Filenames opts) [] = Inr []"
  shows "RunPush w opts =
           (Some (ErrNew (if Filenames opts = []
                          then ''no files specified, use -f to provide RGD files''
                          else ''no YAML files found in specified paths'')), [])"
  using assms by (simp add: RunPush_def)

theorem push_no_input_files_witness:
  "RunPush_collect (push_os example_push) [''docs''] [] = Inr [] \<and>
   RunPush example_push \<lparr>Filenames = [''docs''], Reference = ''ghcr.io/acme/stack:v1''\<rparr> =
     (Some (ErrNew ''no YAML files found in specified paths''), [])"
proof -
  have c: "RunPush_collect (push_os example_push)
             (Filenames \<lparr>Filenames = [''docs''], Reference = ''ghcr.io/acme/stack:v1''\<rparr>) [] = Inr []"
    by (simp add: example_push_def example_collect_docs del: RunPush_collect.simps(2))
  from push_no_input_files [OF c] c show ?thesis by simp
qed

lemma example_locked_error:
  "argument_error (push_os example_push) ''locked'' =
     Some (ErrWrap ''failed to walk directory locked: '' (ErrExternal ''open locked: permission denied''))"
  by (simp add: argument_error_def example_push_def example_os_def)

lemma example_a_yaml_ok: "argument_error (push_os example_push) ''a.yaml'' = None"
  by (simp add: argument_error_def example_push_def example_os_def)

text \<open>
  Claim C7, as stated, fails: the arguments are handled in order, so when the walk of an
  earlier directory argument fails, that error is returned and not the failure of
  \<^verbatim>\<open>os.Stat\<close> on the missing argument.
\<close>

theorem push_missing_argument_counterexample:
  "os_Stat (push_os example_push) ''missing'' =
     Inl (ErrExternal ''stat missing: no such file or directory'') \<and>
   fst (RunPush example_push \<lparr>Filenames = [''locked'', ''missing''], Reference = ''ghcr.io/acme/stack:v1''\<rparr>) =
     Some (ErrWrap ''failed to walk directory locked: '' (ErrExternal ''open locked: permission denied'')) \<and>
   fst (RunPush example_push \<lparr>Filenames = [''locked'', ''missing''], Reference = ''ghcr.io/acme/stack:v1''\<rparr>) \<noteq>
     Some (ErrWrap ''failed to access missing: '' (ErrExternal ''stat missing: no such file or directory''))"
  by code_simp

text \<open>
  Claim C7, amended. When \<^verbatim>\<open>os.Stat\<close> fails on an argument, \<^verbatim>\<open>RunPush\<close> fails and has
  performed no effect, so nothing is staged or pushed. The error returned is the error of
  the first argument that fails: the wrapped failure of \<^verbatim>\<open>os.Stat\<close> on it, or the wrapped
  first error of its walk when it is a directory. So it is the failure of \<^verbatim>\<open>os.Stat\<close> on the
  missing argument provided that every argument before it exists and, when it is a
  directory, is walked without error; otherwise it is the error of the earlier failing
  argument.
\<close>

theorem push_missing_argument:
  assumes "Filenames opts = pre @ f # post" and "os_Stat (push_os w) f = Inl e"
  shows "snd (RunPush w opts) = [] \<and>
         (\<exists>good a rest err.
            Filenames opts = good @ a # rest \<and>
            (\<forall>b \<in> set good. argument_error (push_os w) b = None) \<and>
            argument_error (push_os w) a = Some err \<and>
            fst (RunPush w opts) = Some err) \<and>
         (\<forall>good a rest err.
            Filenames opts = good @ a # rest \<and>
            (\<forall>b \<in> set good. argument_error (push_os w) b = None) \<and>
            argument_error (push_os w) a = Some err
            \<longrightarrow> fst (RunPush w opts) = Some err) \<and>
         ((\<forall>b \<in> set pre. argument_error (push_os w) b = None)
          \<longrightarrow> fst (RunPush w opts) = Some (ErrWrap (''failed to access '' @ f @ '': '') e))"
proof -
  from assms(1) have ne: "Filenames opts \<noteq> []" by simp
  have run: "RunPush w opts = (Some err, [])"
    if "Filenames opts = good @ a # rest"
      and "\<forall>b \<in> set good. argument_error (push_os w) b = None"
      and "argument_error (push_os w) a = Some err" for good a rest err
  proof -
    from collect_first_error [OF that(2,3), of rest "[]"] that(1)
    have "RunPush_collect (push_os w) (Filenames opts) [] = Inl err" by simp
    with ne show ?thesis by (simp add: RunPush_def)
  qed
  have fe: "argument_error (push_os w) f = Some (ErrWrap (''failed to access '' @ f @ '': '') e)"
    using assms(2) by (simp add: argument_error_def)
  then have "\<exists>x \<in> set (Filenames opts). argument_error (push_os w) x \<noteq> None"
    using assms(1) by auto
  from split_list_first_prop [OF this]
  obtain good a rest where dec: "Filenames opts = good @ a # rest"
    and a: "argument_error (push_os w) a \<noteq> None"
    and good: "\<forall>b \<in> set good. \<not> argument_error (push_os w) b \<noteq> None"
    by blast
  from a obtain err where err: "argument_error (push_os w) a = Some err" by auto
  from good have good': "\<forall>b \<in> set good. argument_error (push_os w) b = None" by simp
  note first = run [OF dec good' err]
  have c1: "snd (RunPush w opts) = []" by (simp add: first)
  have c2: "\<exists>good a rest err.
            Filenames opts = good @ a # rest \<and>
            (\<forall>b \<in> set good. argument_error (push_os w) b = None) \<and>
            argument_error (push_os w) a = Some err \<and>
            fst (RunPush w opts) = Some err"
    using dec good' err first by (intro exI [of _ good] exI [of _ a] exI [of _ rest] exI [of _ err]) simp
  have c3: "\<forall>good a rest err.
            Filenames opts = good @ a # rest \<and>
            (\<forall>b \<in> set good. argument_error (push_os w) b = None) \<and>
            argument_error (push_os w) a = Some err
            \<longrightarrow> fst (RunPush w opts) = Some err"
  proof (intro allI impI)
    fix g b r x
    assume h: "Filenames opts = g @ b # r \<and>
            (\<forall>c \<in> set g. argument_error (push_os w) c = None) \<and>
            argument_error (push_os w) b = Some x"
    then have h1: "Filenames opts = g @ b # r"
      and h2: "\<forall>c \<in> set g. argument_error (push_os w) c = None"
      and h3: "argument_error (push_os w) b = Some x"
      by simp_all
    from run [OF h1 h2 h3] show "fst (RunPush w opts) = Some x" by simp
  qed
  have c4: "(\<forall>b \<in> set pre. argument_error (push_os w) b = None)
          \<longrightarrow> fst (RunPush w opts) = Some (ErrWrap (''failed to access '' @ f @ '': '') e)"
  proof
    assume "\<forall>b \<in> set pre. argument_error (push_os w) b = None"
    from run [OF assms(1) this fe] show "fst (RunPush w opts) = Some (ErrWrap (''failed to access '' @ f @ '': '') e)"
      by simp
  qed
  from c1 c2 c3 c4 show ?thesis by (intro conjI)
qed

theorem push_missing_argument_witness:
  "os_Stat (push_os example_push) ''missing'' =
     Inl (ErrExternal ''stat missing: no such file or directory'') \<and>
   fst (RunPush example_push \<lparr>Filenames = [''a.yaml'', ''missing''], Reference = ''ghcr.io/acme/stack:v1''\<rparr>) =
     Some (ErrWrap ''failed to access missing: '' (ErrExternal ''stat missing: no such file or directory'')) \<and>
   snd (RunPush example_push \<lparr>Filenames = [''a.yaml'', ''missing''], Reference = ''ghcr.io/acme/stack:v1''\<rparr>) = [] \<and>
   argument_error (push_os example_push) ''locked'' =
     Some (ErrWrap ''failed to walk directory locked: '' (ErrExternal ''open locked: permission denied'')) \<and>
   fst (RunPush example_push \<lparr>Filenames = [''locked'', ''missing''], Reference = ''ghcr.io/acme/stack:v1''\<rparr>) =
     Some (ErrWrap ''failed to walk directory locked: '' (ErrExternal ''open locked: permission denied'')) \<and>
   snd (RunPush example_push \<lparr>Filenames = [''locked'', ''missing''], Reference = ''ghcr.io/acme/stack:v1''\<rparr>) = []"
proof -
  let ?o1 = "\<lparr>Filenames = [''a.yaml'', ''missing''], Reference = ''ghcr.io/acme/stack:v1''\<rparr>"
  let ?o2 = "\<lparr>Filenames = [''locked'', ''missing''], Reference = ''ghcr.io/acme/stack:v1''\<rparr>"
  have s: "os_Stat (push_os example_push) ''missing'' =
             Inl (ErrExternal ''stat missing: no such file or directory'')"
    by (simp add: example_push_def example_os_def)
  have f1: "Filenames ?o1 = [''a.yaml''] @ ''missing'' # []" by simp
  have f2: "Filenames ?o2 = [''locked''] @ ''missing'' # []" by simp
  have g1: "\<forall>b \<in> set [''a.yaml'']. argument_error (push_os example_push) b = None"
    using example_a_yaml_ok by simp
  note t1 = push_missing_argument [OF f1 s]
  note t2 = push_missing_argument [OF f2 s]
  from t1 have a1: "snd (RunPush example_push ?o1) = []" by (rule conjunct1)
  from t1 [THEN conjunct2, THEN conjunct2, THEN conjunct2, THEN mp, OF g1]
  have b1: "fst (RunPush example_push ?o1) =
              Some (ErrWrap ''failed to access missing: '' (ErrExternal ''stat missing: no such file or directory''))"
    by simp
  from t2 have a2: "snd (RunPush example_push ?o2) = []" by (rule conjunct1)
  have h2: "Filenames ?o2 = [] @ ''locked'' # [''missing''] \<and>
            (\<forall>b \<in> set []. argument_error (push_os example_push) b = None) \<and>
            argument_error (push_os example_push) ''locked'' =
              Some (ErrWrap ''failed to walk directory locked: '' (ErrExternal ''open locked: permission denied''))"
    using example_locked_error by simp
  from t2 [THEN conjunct2, THEN conjunct2, THEN conjunct1, THEN spec, THEN spec, THEN spec, THEN spec, THEN mp, OF h2]
  have b2: "fst (RunPush example_push ?o2) =
              Some (ErrWrap ''failed to walk directory locked: '' (ErrExternal ''open locked: permission denied''))" .
  from s b1 a1 example_locked_error b2 a2 show ?thesis by (intro conjI)
qed

end
